theory Spec2Isabelle
  imports Main "HOL-Library.Word"
begin

section \<open>The TKey session manager (internal/tkey)\<close>

text \<open>
  A shallow embedding of \<^verbatim>\<open>internal/tkey/signer.go\<close> (the \<^verbatim>\<open>Signer\<close> session) and of the
  package-level facade (\<^verbatim>\<open>GetTkeyPubKey\<close>, \<^verbatim>\<open>Sign\<close>, \<^verbatim>\<open>getSigner\<close>).

  The physical token and the libraries that drive it (tkeyclient, tkeysign, tkeyutil) are
  outside the repository. They are a parameter of every function: a record of operations
  over an abstract device state \<open>'d\<close>, each returning its answer and the new device state.
  Every call of such an operation is appended to a call log, with its arguments, its answer
  and whether the calling session's mutex was held at that moment.
\<close>

subsection \<open>Values\<close>

type_synonym bytes = "8 word list"

text \<open>
  Go \<^verbatim>\<open>error\<close> values. \<open>ErrNoDevice\<close> and \<open>ErrManyDevices\<close> are the two sentinels of
  tkeyclient that \<^verbatim>\<open>connect\<close> tests with \<^verbatim>\<open>errors.Is\<close>; \<open>ErrIO\<close> is any other error of
  the libraries; \<open>ErrMsg\<close> is \<^verbatim>\<open>errors.New\<close> or \<^verbatim>\<open>fmt.Errorf\<close> without \<^verbatim>\<open>%w\<close>;
  \<open>ErrWrap\<close> is \<^verbatim>\<open>fmt.Errorf("prefix: %w", err)\<close>.
\<close>

datatype error =
    ErrNoDevice
  | ErrManyDevices
  | ErrIO string
  | ErrMsg string
  | ErrWrap string error

text \<open>\<^verbatim>\<open>errors.Is\<close> and \<^verbatim>\<open>errors.Unwrap\<close> on these values.\<close>

fun errors_Is :: "error \<Rightarrow> error \<Rightarrow> bool" where
  "errors_Is (ErrWrap m e) target = (ErrWrap m e = target \<or> errors_Is e target)"
| "errors_Is e target = (e = target)"

fun errors_Unwrap :: "error \<Rightarrow> error option" where
  "errors_Unwrap (ErrWrap m e) = Some e"
| "errors_Unwrap e = None"

record NameVersion =
  Name0 :: string
  Name1 :: string
  Version :: nat

datatype call =
    CallDetectSerialPort "error + string"
  | CallConnect string int "error option"
  | CallGetNameVersion "error + NameVersion"
  | CallGetAppNameVersion "error + NameVersion"
  | CallGetUDI "error + string"
  | CallGetSecret string string "error + bytes"
  | CallReadUSS string "error + bytes"
  | CallLoadApp bytes bytes "error option"
  | CallGetPubkey "error + bytes"
  | CallSign bytes "error + bytes"
  | CallClose "error option"
  | CallExit int

text \<open>The messages handed to \<^verbatim>\<open>notify\<close>, one constructor for each call site.\<close>

datatype notice =
    NoteNoDevice
  | NoteManyDevices
  | NoteDetectFailed error
  | NoteCouldNotConnect string
  | NoteUSSPrompt "error option"
  | NoteUSSFile error
  | NoteWrongApp

datatype signal = SIGHUP | SIGINT | SIGTERM | SIGOTHER nat

text \<open>
  The two closures that \<^verbatim>\<open>NewSigner\<close> hands to \<^verbatim>\<open>handleSignals\<close>: \<^verbatim>\<open>func() {}\<close> and
  \<^verbatim>\<open>func() { signer.closeNow(); exitFunc(1) }\<close> (the argument is the code given to
  \<^verbatim>\<open>exitFunc\<close>).
\<close>

datatype sig_action = ActNothing | ActCloseNowExit int

subsection \<open>The device libraries, as a parameter\<close>

record 'd adapter =
  ad_DetectSerialPort :: "'d \<Rightarrow> (error + string) \<times> 'd"
  ad_SerialSpeed :: int
  ad_Connect :: "string \<Rightarrow> int \<Rightarrow> 'd \<Rightarrow> error option \<times> 'd"
  ad_GetNameVersion :: "'d \<Rightarrow> (error + NameVersion) \<times> 'd"
  ad_GetAppNameVersion :: "'d \<Rightarrow> (error + NameVersion) \<times> 'd"
  ad_GetUDI :: "'d \<Rightarrow> (error + string) \<times> 'd"
  ad_getSecret :: "string \<Rightarrow> string \<Rightarrow> 'd \<Rightarrow> (error + bytes) \<times> 'd"
  ad_ReadUSS :: "string \<Rightarrow> 'd \<Rightarrow> (error + bytes) \<times> 'd"
  ad_appBinary :: bytes
  ad_LoadApp :: "bytes \<Rightarrow> bytes \<Rightarrow> 'd \<Rightarrow> error option \<times> 'd"
  ad_GetPubkey :: "'d \<Rightarrow> (error + bytes) \<times> 'd"
  ad_Sign :: "bytes \<Rightarrow> 'd \<Rightarrow> (error + bytes) \<times> 'd"
  ad_Close :: "'d \<Rightarrow> error option \<times> 'd"

text \<open>
  \<open>ad_getSecret\<close> is the package's \<^verbatim>\<open>getSecret\<close> (the pinentry prompt), whose file is not
  part of the sources at hand; \<open>ad_appBinary\<close> is the embedded \<^verbatim>\<open>signer.bin-v1.0.3\<close>;
  \<open>ad_SerialSpeed\<close> is \<^verbatim>\<open>tkeyclient.SerialSpeed\<close>.
\<close>

record 'd world =
  dev :: 'd
  calls :: "(bool \<times> call) list"
  notices :: "notice list"

definition emit :: "bool \<Rightarrow> call \<Rightarrow> 'd \<Rightarrow> 'd world \<Rightarrow> 'd world" where
  "emit held c d w = w\<lparr>dev := d, calls := calls w @ [(held, c)]\<rparr>"

definition notify :: "notice \<Rightarrow> 'd world \<Rightarrow> 'd world" where
  "notify n w = w\<lparr>notices := notices w @ [n]\<rparr>"

subsection \<open>The session\<close>

text \<open>
  The \<^verbatim>\<open>Signer\<close> struct, together with the runtime objects whose closures capture it:
  \<^item> \<open>tk_open\<close> stands for the fields \<^verbatim>\<open>tk\<close> and \<^verbatim>\<open>tkSigner\<close>: whether the client handle holds
    an open serial connection. A successful \<^verbatim>\<open>tk.Connect\<close> opens it, a failed one leaves it
    without a connection, and \<^verbatim>\<open>tkSigner.Close\<close> closes it. \<^verbatim>\<open>NewSigner\<close> sets \<^verbatim>\<open>tkSigner\<close>
    and nothing assigns it afterwards, so the \<^verbatim>\<open>s.tkSigner == nil\<close> returns of \<^verbatim>\<open>disconnect\<close>
    and \<^verbatim>\<open>closeNow\<close> are never taken and have no branch here;
  \<^item> \<open>mu\<close> is the mutex: \<open>True\<close> while locked. The model runs one goroutine to completion, so
    the mutex is free at each \<^verbatim>\<open>Lock\<close>;
  \<^item> \<open>disconnectTimer\<close> is the timer handle (\<open>None\<close> is \<^verbatim>\<open>nil\<close>), an identifier of a timer
    made by \<^verbatim>\<open>time.AfterFunc\<close>; \<open>armed\<close> lists the timers of this session that have not
    expired and were not stopped, each with its delay in nanoseconds; \<open>started\<close> lists the
    timers that have expired and whose function the runtime has started in its own goroutine,
    where it has not yet taken the mutex; \<open>next_timer\<close> is the next fresh identifier;
  \<^item> \<open>sig_handlers\<close> are the goroutines started by \<^verbatim>\<open>handleSignals\<close> in \<^verbatim>\<open>NewSigner\<close>, and
    \<open>exitFunc\<close> maps the code it is called with to the status it passes to \<^verbatim>\<open>os.Exit\<close>.
\<close>

record Signer =
  tk_open :: bool
  devPath :: string
  speed :: int
  enterUSS :: bool
  fileUSS :: string
  pinentry :: string
  mu :: bool
  connected :: bool
  disconnectTimer :: "nat option"
  armed :: "(nat \<times> nat) list"
  started :: "nat list"
  next_timer :: nat
  sig_handlers :: "(signal list \<times> sig_action) list"
  exitFunc :: "int \<Rightarrow> int"

definition appName :: string where
  "appName = ''tkey-device-signer 1.0.3''"

definition idleDisconnect :: nat where
  "idleDisconnect = 3 * 1000000000"

definition wantFWName0 :: string where "wantFWName0 = ''tk1 ''"
definition wantFWName1 :: string where "wantFWName1 = ''mkdf''"
definition wantAppName0 :: string where "wantAppName0 = ''tk1 ''"
definition wantAppName1 :: string where "wantAppName1 = ''sign''"

definition NewSigner ::
  "string \<Rightarrow> int \<Rightarrow> bool \<Rightarrow> string \<Rightarrow> string \<Rightarrow> (int \<Rightarrow> int) \<Rightarrow> Signer" where
  "NewSigner devPathArg speedArg enterUSSArg fileUSSArg pinentryArg exitFuncArg =
     \<lparr>tk_open = False, devPath = devPathArg, speed = speedArg, enterUSS = enterUSSArg,
      fileUSS = fileUSSArg, pinentry = pinentryArg, mu = False, connected = False,
      disconnectTimer = None, armed = [], started = [], next_timer = 0,
      sig_handlers = [([SIGHUP], ActNothing), ([SIGINT, SIGTERM], ActCloseNowExit 1)],
      exitFunc = exitFuncArg\<rparr>"

text \<open>
  \<^verbatim>\<open>Timer.Stop\<close> on the handle, then \<^verbatim>\<open>s.disconnectTimer = nil\<close>. \<^verbatim>\<open>Stop\<close> keeps a timer that
  has not expired from expiring; it does nothing to a function that has already been started,
  and the code does not look at what \<^verbatim>\<open>Stop\<close> returns.
\<close>

definition stopTimer :: "Signer \<Rightarrow> Signer" where
  "stopTimer s =
     (case disconnectTimer s of
        None \<Rightarrow> s
      | Some t \<Rightarrow> s\<lparr>armed := filter (\<lambda>(i, d). i \<noteq> t) (armed s), disconnectTimer := None\<rparr>)"

definition closeNow :: "'d adapter \<Rightarrow> Signer \<Rightarrow> 'd world \<Rightarrow> Signer \<times> 'd world" where
  "closeNow ad s w =
     (let (r, d) = ad_Close ad (dev w)
      in (s\<lparr>tk_open := False\<rparr>, emit (mu s) (CallClose r) d w))"

definition isFirmwareMode :: "'d adapter \<Rightarrow> Signer \<Rightarrow> 'd world \<Rightarrow> bool \<times> 'd world" where
  "isFirmwareMode ad s w =
     (let (r, d) = ad_GetNameVersion ad (dev w);
          w1 = emit (mu s) (CallGetNameVersion r) d w
      in case r of
           Inl e \<Rightarrow> (False, w1)
         | Inr nameVer \<Rightarrow> (Name0 nameVer = wantFWName0 \<and> Name1 nameVer = wantFWName1, w1))"

definition isWantedApp :: "'d adapter \<Rightarrow> Signer \<Rightarrow> 'd world \<Rightarrow> bool \<times> 'd world" where
  "isWantedApp ad s w =
     (let (r, d) = ad_GetAppNameVersion ad (dev w);
          w1 = emit (mu s) (CallGetAppNameVersion r) d w
      in case r of
           Inl e \<Rightarrow> (False, w1)
         | Inr nameVer \<Rightarrow> (Name0 nameVer = wantAppName0 \<and> Name1 nameVer = wantAppName1, w1))"

text \<open>The last statements of \<^verbatim>\<open>loadApp\<close>: \<^verbatim>\<open>s.tk.LoadApp(appBinary, secret)\<close>.\<close>

definition loadApp_load :: "'d adapter \<Rightarrow> Signer \<Rightarrow> bytes \<Rightarrow> 'd world \<Rightarrow> error option \<times> 'd world" where
  "loadApp_load ad s secret w =
     (let (r, d) = ad_LoadApp ad (ad_appBinary ad) secret (dev w);
          w1 = emit (mu s) (CallLoadApp (ad_appBinary ad) secret r) d w
      in case r of
           Some e \<Rightarrow> (Some (ErrWrap ''LoadApp: '' e), w1)
         | None \<Rightarrow> (None, w1))"

definition loadApp :: "'d adapter \<Rightarrow> Signer \<Rightarrow> 'd world \<Rightarrow> error option \<times> 'd world" where
  "loadApp ad s w =
     (if enterUSS s then
        (let (ru, d1) = ad_GetUDI ad (dev w);
             w1 = emit (mu s) (CallGetUDI ru) d1 w
         in case ru of
              Inl e \<Rightarrow> (Some (ErrWrap ''failed to get UDI: '' e), w1)
            | Inr udi \<Rightarrow>
                (let (rs, d2) = ad_getSecret ad udi (pinentry s) (dev w1);
                     w2 = emit (mu s) (CallGetSecret udi (pinentry s) rs) d2 w1
                 in case rs of
                      Inl e \<Rightarrow>
                        (Some (ErrWrap ''failed to get USS: '' e),
                         notify (NoteUSSPrompt (errors_Unwrap e)) w2)
                    | Inr secret \<Rightarrow> loadApp_load ad s secret w2))
      else if fileUSS s \<noteq> [] then
        (let (rs, d1) = ad_ReadUSS ad (fileUSS s) (dev w);
             w1 = emit (mu s) (CallReadUSS (fileUSS s) rs) d1 w
         in case rs of
              Inl e \<Rightarrow>
                (Some (ErrWrap (''failed to read uss-file '' @ fileUSS s @ '': '') e),
                 notify (NoteUSSFile e) w1)
            | Inr secret \<Rightarrow> loadApp_load ad s secret w1)
      else loadApp_load ad s [] w)"

text \<open>The \<^verbatim>\<open>devPath == ""\<close> block of \<^verbatim>\<open>connect\<close>: \<open>None\<close> is its \<^verbatim>\<open>return false\<close>.\<close>

definition connect_detect :: "'d adapter \<Rightarrow> Signer \<Rightarrow> 'd world \<Rightarrow> string option \<times> 'd world" where
  "connect_detect ad s w =
     (let (r, d) = ad_DetectSerialPort ad (dev w);
          w1 = emit (mu s) (CallDetectSerialPort r) d w
      in case r of
           Inl e \<Rightarrow>
             (None, notify (if errors_Is e ErrNoDevice then NoteNoDevice
                            else if errors_Is e ErrManyDevices then NoteManyDevices
                            else NoteDetectFailed e) w1)
         | Inr p \<Rightarrow> (Some p, w1))"

text \<open>
  The port \<^verbatim>\<open>connect\<close> goes on with: \<^verbatim>\<open>s.devPath\<close>, or the detected one when that is empty.
\<close>

definition connect_port :: "'d adapter \<Rightarrow> Signer \<Rightarrow> 'd world \<Rightarrow> string option \<times> 'd world" where
  "connect_port ad s w = (if devPath s = [] then connect_detect ad s w else (Some (devPath s), w))"

text \<open>
  \<^verbatim>\<open>connect\<close> from \<^verbatim>\<open>s.isFirmwareMode()\<close> on, entered with the transport open and the mutex
  held.
\<close>

definition connect_identify :: "'d adapter \<Rightarrow> Signer \<Rightarrow> 'd world \<Rightarrow> bool \<times> Signer \<times> 'd world" where
  "connect_identify ad s w =
     (let (fw, w1) = isFirmwareMode ad s w;
          (lr, w2) = (if fw then loadApp ad s w1 else (None, w1))
      in case lr of
           Some e \<Rightarrow> (let (s3, w3) = closeNow ad s w2 in (False, s3, w3))
         | None \<Rightarrow>
             (let (wanted, w3) = isWantedApp ad s w2
              in if \<not> wanted then
                   (let (s4, w4) = closeNow ad s (notify NoteWrongApp w3) in (False, s4, w4))
                 else (True, s\<lparr>connected := True\<rparr>, w3)))"

text \<open>\<^verbatim>\<open>connect\<close> between \<^verbatim>\<open>s.mu.Lock()\<close> and the deferred \<^verbatim>\<open>s.mu.Unlock()\<close>.\<close>

definition connect_locked :: "'d adapter \<Rightarrow> Signer \<Rightarrow> 'd world \<Rightarrow> bool \<times> Signer \<times> 'd world" where
  "connect_locked ad s0 w =
     (let s = stopTimer s0
      in if connected s then (True, s, w)
         else
           (case connect_port ad s w of
              (None, w1) \<Rightarrow> (False, s, w1)
            | (Some port, w1) \<Rightarrow>
                (let (r, d) = ad_Connect ad port (speed s) (dev w1);
                     w2 = emit (mu s) (CallConnect port (speed s) r) d w1;
                     s2 = s\<lparr>tk_open := (r = None)\<rparr>
                 in case r of
                      Some e \<Rightarrow> (False, s2, notify (NoteCouldNotConnect port) w2)
                    | None \<Rightarrow> connect_identify ad s2 w2)))"

definition connect :: "'d adapter \<Rightarrow> Signer \<Rightarrow> 'd world \<Rightarrow> bool \<times> Signer \<times> 'd world" where
  "connect ad s w =
     (let (ok, s1, w1) = connect_locked ad (s\<lparr>mu := True\<rparr>) w
      in (ok, s1\<lparr>mu := False\<rparr>, w1))"

text \<open>
  \<^verbatim>\<open>disconnect\<close>: \<^verbatim>\<open>time.AfterFunc(idleDisconnect, ...)\<close> makes a fresh timer and arms it.
\<close>

definition disconnect :: "Signer \<Rightarrow> Signer" where
  "disconnect s0 =
     (let s = s0\<lparr>mu := True\<rparr>
      in if \<not> connected s then s\<lparr>mu := False\<rparr>
         else
           (let s1 = stopTimer s;
                t = next_timer s1
            in s1\<lparr>disconnectTimer := Some t, armed := armed s1 @ [(t, idleDisconnect)],
                  next_timer := Suc t, mu := False\<rparr>))"

text \<open>
  The timer \<open>t\<close> expires: the runtime takes it off the armed timers and starts its function.
  Nothing happens if \<open>t\<close> is not armed (stopped, or expired before).
\<close>

definition timer_expire :: "nat \<Rightarrow> Signer \<Rightarrow> Signer" where
  "timer_expire t s =
     (if t \<notin> fst ` set (armed s) then s
      else s\<lparr>armed := filter (\<lambda>(i, d). i \<noteq> t) (armed s), started := started s @ [t]\<rparr>)"

text \<open>
  The function given to \<^verbatim>\<open>time.AfterFunc\<close> in \<^verbatim>\<open>disconnect\<close>: it takes the mutex, closes, and
  clears the flag and the handle, without testing anything.
\<close>

definition timer_callback :: "'d adapter \<Rightarrow> Signer \<Rightarrow> 'd world \<Rightarrow> Signer \<times> 'd world" where
  "timer_callback ad s0 w =
     (let s = s0\<lparr>mu := True\<rparr>;
          (s1, w1) = closeNow ad s w
      in (s1\<lparr>connected := False, disconnectTimer := None, mu := False\<rparr>, w1))"

text \<open>The started function of timer \<open>t\<close> gets the mutex and runs.\<close>

definition timer_run :: "'d adapter \<Rightarrow> nat \<Rightarrow> Signer \<Rightarrow> 'd world \<Rightarrow> Signer \<times> 'd world" where
  "timer_run ad t s w =
     (if t \<notin> set (started s) then (s, w)
      else timer_callback ad (s\<lparr>started := remove1 t (started s)\<rparr>) w)"

text \<open>
  The timer \<open>t\<close> expires and its function runs before anything else happens to the session.
\<close>

definition timer_fire :: "'d adapter \<Rightarrow> nat \<Rightarrow> Signer \<Rightarrow> 'd world \<Rightarrow> Signer \<times> 'd world" where
  "timer_fire ad t s w =
     (if t \<notin> fst ` set (armed s) then (s, w) else timer_run ad t (timer_expire t s) w)"

text \<open>
  One goroutine of \<^verbatim>\<open>handleSignals\<close> receiving a signal it was registered for, and the
  delivery of a signal to every handler of the session.
\<close>

definition run_action :: "'d adapter \<Rightarrow> sig_action \<Rightarrow> Signer \<Rightarrow> 'd world \<Rightarrow> Signer \<times> 'd world" where
  "run_action ad a s w =
     (case a of
        ActNothing \<Rightarrow> (s, w)
      | ActCloseNowExit code \<Rightarrow>
          (let (s1, w1) = closeNow ad s w
           in (s1, emit (mu s1) (CallExit (exitFunc s1 code)) (dev w1) w1)))"

fun deliver ::
  "'d adapter \<Rightarrow> signal \<Rightarrow> (signal list \<times> sig_action) list \<Rightarrow> Signer \<Rightarrow> 'd world \<Rightarrow> Signer \<times> 'd world" where
  "deliver ad sg [] s w = (s, w)"
| "deliver ad sg ((sigs, a) # hs) s w =
     (if sg \<in> set sigs then (let (s1, w1) = run_action ad a s w in deliver ad sg hs s1 w1)
      else deliver ad sg hs s w)"

definition handle_signal :: "'d adapter \<Rightarrow> signal \<Rightarrow> Signer \<Rightarrow> 'd world \<Rightarrow> Signer \<times> 'd world" where
  "handle_signal ad sg s w = deliver ad sg (sig_handlers s) s w"

text \<open>
  \<^verbatim>\<open>printAuthorizedKey\<close>: what it writes to stdout and stderr is left out, its calls and its
  effect on the session are kept.
\<close>

definition printAuthorizedKey :: "'d adapter \<Rightarrow> Signer \<Rightarrow> 'd world \<Rightarrow> Signer \<times> 'd world" where
  "printAuthorizedKey ad s w =
     (let (ok, s1, w1) = connect ad s w
      in if \<not> ok then (s1, w1)
         else
           (let (r, d) = ad_GetPubkey ad (dev w1);
                w2 = emit (mu s1) (CallGetPubkey r) d w1
            in (disconnect s1, w2)))"

text \<open>\<^verbatim>\<open>Public\<close>: \<open>None\<close> is the \<^verbatim>\<open>nil\<close> key.\<close>

definition Signer_Public :: "'d adapter \<Rightarrow> Signer \<Rightarrow> 'd world \<Rightarrow> bytes option \<times> Signer \<times> 'd world" where
  "Signer_Public ad s w =
     (let (ok, s1, w1) = connect ad s w
      in if \<not> ok then (None, s1, w1)
         else
           (let (r, d) = ad_GetPubkey ad (dev w1);
                w2 = emit (mu s1) (CallGetPubkey r) d w1
            in case r of
                 Inl e \<Rightarrow> (None, disconnect s1, w2)
               | Inr pub \<Rightarrow> (Some pub, disconnect s1, w2)))"

text \<open>
  \<^verbatim>\<open>Signer.Sign\<close>: \<open>opts\<close> is the value of \<^verbatim>\<open>opts.HashFunc()\<close>, an unsigned number that is
  only compared with \<^verbatim>\<open>crypto.Hash(0)\<close>.
\<close>

definition Signer_Sign ::
  "'d adapter \<Rightarrow> Signer \<Rightarrow> bytes \<Rightarrow> nat \<Rightarrow> 'd world \<Rightarrow> (error + bytes) \<times> Signer \<times> 'd world" where
  "Signer_Sign ad s message opts w =
     (let (ok, s1, w1) = connect ad s w
      in if \<not> ok then (Inl (ErrMsg ''connect failed''), s1, w1)
         else if opts \<noteq> 0 then (Inl (ErrMsg ''message must not be hashed''), disconnect s1, w1)
         else
           (let (r, d) = ad_Sign ad message (dev w1);
                w2 = emit (mu s1) (CallSign message r) d w1
            in case r of
                 Inl e \<Rightarrow> (Inl (ErrWrap ''Sign: '' e), disconnect s1, w2)
               | Inr signature \<Rightarrow> (Inr signature, disconnect s1, w2)))"

subsection \<open>The facade\<close>

text \<open>
  The package state: \<open>existingSigner\<close> is the global pointer (\<open>None\<close> is \<^verbatim>\<open>nil\<close>); \<open>replaced\<close>
  holds the sessions the global pointed to before, in the state they were left in (their
  signal goroutines keep them reachable, nothing else calls them).
\<close>

record proc =
  existingSigner :: "Signer option"
  replaced :: "Signer list"

text \<open>
  \<^verbatim>\<open>getSigner\<close> after its first \<^verbatim>\<open>if\<close>. The returned session is the one the global points
  to; the callers write its later states back through \<open>existingSigner\<close>.
\<close>

definition getSigner_new :: "'d adapter \<Rightarrow> proc \<Rightarrow> 'd world \<Rightarrow> (error + Signer) \<times> proc \<times> 'd world" where
  "getSigner_new ad p w =
     (let (r, d) = ad_DetectSerialPort ad (dev w);
          w1 = emit False (CallDetectSerialPort r) d w
      in case r of
           Inl err \<Rightarrow> (Inl err, p, w1)
         | Inr port \<Rightarrow>
             (let signer = NewSigner port (ad_SerialSpeed ad) True [] [] (\<lambda>code. 0)
              in (Inr signer,
                  \<lparr>existingSigner = Some signer,
                   replaced = replaced p @ (case existingSigner p of None \<Rightarrow> [] | Some old \<Rightarrow> [old])\<rparr>,
                  w1)))"

definition getSigner :: "'d adapter \<Rightarrow> proc \<Rightarrow> 'd world \<Rightarrow> (error + Signer) \<times> proc \<times> 'd world" where
  "getSigner ad p w =
     (case existingSigner p of
        None \<Rightarrow> getSigner_new ad p w
      | Some s \<Rightarrow>
          (let (ok, s1, w1) = connect ad s w;
               p1 = p\<lparr>existingSigner := Some s1\<rparr>
           in if \<not> ok then getSigner_new ad p1 w1
              else
                (let (wanted, w2) = isWantedApp ad s1 w1
                 in if wanted then (Inr s1, p1, w2) else getSigner_new ad p1 w2)))"

definition GetTkeyPubKey :: "'d adapter \<Rightarrow> proc \<Rightarrow> 'd world \<Rightarrow> (error + bytes) \<times> proc \<times> 'd world" where
  "GetTkeyPubKey ad p w =
     (case getSigner ad p w of
        (Inl err, p1, w1) \<Rightarrow> (Inl err, p1, w1)
      | (Inr signer, p1, w1) \<Rightarrow>
          (let (ok, s2, w2) = connect ad signer w1
           in if \<not> ok then (Inl (ErrMsg ''connect failed''), p1\<lparr>existingSigner := Some s2\<rparr>, w2)
              else
                (let (r, d) = ad_GetPubkey ad (dev w2);
                     w3 = emit (mu s2) (CallGetPubkey r) d w2
                 in case r of
                      Inl err \<Rightarrow> (Inl err, p1\<lparr>existingSigner := Some (disconnect s2)\<rparr>, w3)
                    | Inr pub \<Rightarrow>
                        (let (s4, w4) = printAuthorizedKey ad s2 w3
                         in (Inr pub, p1\<lparr>existingSigner := Some (disconnect s4)\<rparr>, w4)))))"

definition Sign :: "'d adapter \<Rightarrow> bytes \<Rightarrow> proc \<Rightarrow> 'd world \<Rightarrow> (error + bytes) \<times> proc \<times> 'd world" where
  "Sign ad msg p w =
     (case getSigner ad p w of
        (Inl err, p1, w1) \<Rightarrow> (Inl err, p1, w1)
      | (Inr signer, p1, w1) \<Rightarrow>
          (let (ok, s2, w2) = connect ad signer w1
           in if \<not> ok then (Inl (ErrMsg ''connect failed''), p1\<lparr>existingSigner := Some s2\<rparr>, w2)
              else
                (let (r, s3, w3) = Signer_Sign ad s2 msg 0 w2
                 in (r, p1\<lparr>existingSigner := Some (disconnect s3)\<rparr>, w3))))"

subsection \<open>Reading the call log\<close>

text \<open>The calls that \<open>w'\<close> has and \<open>w\<close> had not, when \<open>w'\<close> comes after \<open>w\<close>.\<close>

definition new_calls :: "'d world \<Rightarrow> 'd world \<Rightarrow> (bool \<times> call) list" where
  "new_calls w w' = drop (length (calls w)) (calls w')"

text \<open>The log of \<open>w'\<close> is the log of \<open>w\<close> followed by calls that all satisfy \<open>P\<close>.\<close>

definition extends_with :: "(bool \<times> call \<Rightarrow> bool) \<Rightarrow> 'd world \<Rightarrow> 'd world \<Rightarrow> bool" where
  "extends_with P w w' =
     (take (length (calls w)) (calls w') = calls w \<and> list_all P (new_calls w w'))"

text \<open>
  The calls that \<^verbatim>\<open>connect\<close> and \<^verbatim>\<open>closeNow\<close> can make: everything but the two signer-app
  operations and the process exit.
\<close>

fun is_connect_call :: "call \<Rightarrow> bool" where
  "is_connect_call (CallGetPubkey r) = False"
| "is_connect_call (CallSign m r) = False"
| "is_connect_call (CallExit n) = False"
| "is_connect_call c = True"

text \<open>A get-public-key call made while the mutex was free.\<close>

fun pubkey_call_unlocked :: "bool \<times> call \<Rightarrow> bool" where
  "pubkey_call_unlocked (h, CallGetPubkey r) = (\<not> h)"
| "pubkey_call_unlocked (h, c) = False"

definition not_appname :: "bool \<times> call \<Rightarrow> bool" where
  "not_appname e = (case snd e of CallGetAppNameVersion r \<Rightarrow> False | _ \<Rightarrow> True)"

text \<open>The answer to the app-identity query that \<^verbatim>\<open>isWantedApp\<close> accepts.\<close>

definition app_matches :: "error + NameVersion \<Rightarrow> bool" where
  "app_matches r =
     (case r of
        Inl e \<Rightarrow> False
      | Inr nameVer \<Rightarrow> Name0 nameVer = wantAppName0 \<and> Name1 nameVer = wantAppName1)"

subsection \<open>Timers and session states\<close>

text \<open>
  The armed timers of a session are exactly the one its handle names, with the idle delay.
  This holds of a new session and is kept by \<^verbatim>\<open>connect\<close>, by \<^verbatim>\<open>disconnect\<close> and by a timer
  whose function runs as soon as it expires; a timer function that runs later, after other
  operations, clears the handle of whatever timer has been armed since.
\<close>

definition timer_inv :: "Signer \<Rightarrow> bool" where
  "timer_inv s =
     (armed s = (case disconnectTimer s of None \<Rightarrow> [] | Some t \<Rightarrow> [(t, idleDisconnect)]))"

text \<open>
  What \<^verbatim>\<open>getSigner\<close> returns once it has gone on to the port detection, with the device in
  state \<open>d\<close>: the detection's error as it is, or a new session on the detected port.
\<close>

definition discovery_result :: "'d adapter \<Rightarrow> 'd \<Rightarrow> error + Signer" where
  "discovery_result ad d =
     (case fst (ad_DetectSerialPort ad d) of
        Inl err \<Rightarrow> Inl err
      | Inr port \<Rightarrow> Inr (NewSigner port (ad_SerialSpeed ad) True [] [] (\<lambda>code. 0)))"

text \<open>
  A session is live when it is marked connected and its transport is open. The sessions of
  the process are the replaced ones and the one the global points to.
\<close>

definition live :: "Signer \<Rightarrow> bool" where
  "live s = (connected s \<and> tk_open s)"

definition live_sessions :: "proc \<Rightarrow> Signer list" where
  "live_sessions p =
     filter live (replaced p @ (case existingSigner p of None \<Rightarrow> [] | Some s \<Rightarrow> [s]))"

definition existing_connected :: "proc \<Rightarrow> bool" where
  "existing_connected p = (case existingSigner p of None \<Rightarrow> False | Some s \<Rightarrow> connected s)"

subsection \<open>A simulated token\<close>

text \<open>
  A device for running the functions on concrete inputs: it starts in firmware mode with its
  serial port closed, accepts the app, and counts the app-identity queries it has answered.
  Closing a port that is not open is an error.
\<close>

record simdev =
  port_open :: bool
  loaded :: bool
  appq :: nat

definition simTKey :: "simdev adapter" where
  "simTKey =
     \<lparr>ad_DetectSerialPort = (\<lambda>d. (Inr ''/dev/ttyACM0'', d)),
      ad_SerialSpeed = 62500,
      ad_Connect = (\<lambda>port sp d. (None, d\<lparr>port_open := True\<rparr>)),
      ad_GetNameVersion =
        (\<lambda>d. (if loaded d then Inl (ErrIO ''timeout'')
              else Inr \<lparr>Name0 = ''tk1 '', Name1 = ''mkdf'', Version = 5\<rparr>, d)),
      ad_GetAppNameVersion =
        (\<lambda>d. (if loaded d then Inr \<lparr>Name0 = ''tk1 '', Name1 = ''sign'', Version = 1\<rparr>
              else Inl (ErrIO ''timeout''), d\<lparr>appq := Suc (appq d)\<rparr>)),
      ad_GetUDI = (\<lambda>d. (Inr ''0133708100000002'', d)),
      ad_getSecret = (\<lambda>udi pe d. (Inr [1, 2, 3], d)),
      ad_ReadUSS = (\<lambda>f d. (Inr [4, 5, 6], d)),
      ad_appBinary = [127, 69, 76, 70],
      ad_LoadApp = (\<lambda>bin secret d. (None, d\<lparr>loaded := True\<rparr>)),
      ad_GetPubkey = (\<lambda>d. (Inr [7, 7, 7, 7], d)),
      ad_Sign = (\<lambda>m d. (Inr (9 # m), d)),
      ad_Close =
        (\<lambda>d. (if port_open d then None else Some (ErrIO ''not open''), d\<lparr>port_open := False\<rparr>))\<rparr>"

text \<open>No token is plugged in.\<close>

definition sim_no_device :: "simdev adapter" where
  "sim_no_device = simTKey\<lparr>ad_DetectSerialPort := (\<lambda>d. (Inl ErrNoDevice, d))\<rparr>"

text \<open>Two tokens are plugged in.\<close>

definition sim_two_devices :: "simdev adapter" where
  "sim_two_devices = simTKey\<lparr>ad_DetectSerialPort := (\<lambda>d. (Inl ErrManyDevices, d))\<rparr>"

text \<open>The token has been pulled out: nothing answers and no port is found.\<close>

definition sim_unplugged :: "simdev adapter" where
  "sim_unplugged =
     simTKey\<lparr>ad_DetectSerialPort := (\<lambda>d. (Inl ErrNoDevice, d)),
             ad_Connect := (\<lambda>port sp d. (Some (ErrIO ''no such file''), d)),
             ad_GetAppNameVersion := (\<lambda>d. (Inl (ErrIO ''EOF''), d)),
             ad_GetPubkey := (\<lambda>d. (Inl (ErrIO ''EOF''), d)),
             ad_Sign := (\<lambda>m d. (Inl (ErrIO ''EOF''), d))\<rparr>"

text \<open>The serial port cannot be opened.\<close>

definition sim_open_fails :: "simdev adapter" where
  "sim_open_fails = simTKey\<lparr>ad_Connect := (\<lambda>port sp d. (Some (ErrIO ''busy''), d))\<rparr>"

text \<open>The token runs some other app, and so does not answer the firmware query.\<close>

definition sim_other_app :: "simdev adapter" where
  "sim_other_app =
     simTKey\<lparr>ad_GetNameVersion := (\<lambda>d. (Inl (ErrIO ''timeout''), d)),
             ad_GetAppNameVersion :=
               (\<lambda>d. (Inr \<lparr>Name0 = ''tk1 '', Name1 = ''rand'', Version = 1\<rparr>, d))\<rparr>"

text \<open>The token is in firmware mode and takes the app, which then reports another name.\<close>

definition sim_wrong_after_load :: "simdev adapter" where
  "sim_wrong_after_load =
     simTKey\<lparr>ad_GetAppNameVersion :=
               (\<lambda>d. (Inr \<lparr>Name0 = ''tk1 '', Name1 = ''rand'', Version = 1\<rparr>, d))\<rparr>"

text \<open>The second app-identity query fails, the others are answered.\<close>

definition sim_flaky :: "simdev adapter" where
  "sim_flaky =
     simTKey\<lparr>ad_GetAppNameVersion :=
               (\<lambda>d. (if appq d = 1 then Inl (ErrIO ''EOF'')
                     else if loaded d then Inr \<lparr>Name0 = ''tk1 '', Name1 = ''sign'', Version = 1\<rparr>
                     else Inl (ErrIO ''timeout''), d\<lparr>appq := Suc (appq d)\<rparr>))\<rparr>"

text \<open>The signing call fails.\<close>

definition sim_sign_fails :: "simdev adapter" where
  "sim_sign_fails = simTKey\<lparr>ad_Sign := (\<lambda>m d. (Inl (ErrIO ''NOK''), d))\<rparr>"

definition w0 :: "simdev world" where
  "w0 = \<lparr>dev = \<lparr>port_open = False, loaded = False, appq = 0\<rparr>, calls = [], notices = []\<rparr>"

definition p0 :: proc where
  "p0 = \<lparr>existingSigner = None, replaced = []\<rparr>"

definition s0 :: Signer where
  "s0 = NewSigner ''/dev/ttyACM0'' 62500 True [] [] (\<lambda>code. 0)"

text \<open>The session and the world after a first successful \<^verbatim>\<open>connect\<close> to the simulated token.\<close>

definition s_conn :: Signer where
  "s_conn = fst (snd (connect simTKey s0 w0))"

definition w_conn :: "simdev world" where
  "w_conn = snd (snd (connect simTKey s0 w0))"

definition p_conn :: proc where
  "p_conn = \<lparr>existingSigner = Some s_conn, replaced = []\<rparr>"

text \<open>A process whose session has never connected.\<close>

definition p_idle :: proc where
  "p_idle = \<lparr>existingSigner = Some s0, replaced = []\<rparr>"

text \<open>
  The run in which the idle timer expires just before a \<^verbatim>\<open>connect\<close>: the session after
  \<^verbatim>\<open>disconnect\<close>, after the expiry of its timer, the \<^verbatim>\<open>connect\<close> that comes next, and the
  started timer function running after it.
\<close>

definition s_idle :: Signer where
  "s_idle = disconnect s_conn"

definition s_expired :: Signer where
  "s_expired = timer_expire 0 s_idle"

definition late_connect :: "bool \<times> Signer \<times> simdev world" where
  "late_connect = connect simTKey s_expired w_conn"

definition late_close :: "Signer \<times> simdev world" where
  "late_close = timer_run simTKey 0 (fst (snd late_connect)) (snd (snd late_connect))"

text \<open>Two facade calls in a row, on the healthy token and on the one with the failing query.\<close>

definition run1 :: "(error + bytes) \<times> proc \<times> simdev world" where
  "run1 = Sign simTKey [1] p0 w0"

definition run2 :: "(error + bytes) \<times> proc \<times> simdev world" where
  "run2 = Sign simTKey [2] (fst (snd run1)) (snd (snd run1))"

definition flaky_run1 :: "(error + bytes) \<times> proc \<times> simdev world" where
  "flaky_run1 = Sign sim_flaky [1] p0 w0"

definition flaky_run2 :: "(error + bytes) \<times> proc \<times> simdev world" where
  "flaky_run2 = Sign sim_flaky [2] (fst (snd flaky_run1)) (snd (snd flaky_run1))"

lemmas sim_defs =
  simTKey_def sim_open_fails_def sim_other_app_def sim_wrong_after_load_def sim_flaky_def
  sim_sign_fails_def sim_no_device_def sim_two_devices_def sim_unplugged_def w0_def p0_def s0_def
  s_conn_def w_conn_def p_conn_def p_idle_def s_idle_def s_expired_def late_connect_def
  late_close_def
  run1_def run2_def flaky_run1_def flaky_run2_def

lemmas run_defs =
  Sign_def GetTkeyPubKey_def printAuthorizedKey_def getSigner_def getSigner_new_def NewSigner_def
  connect_def connect_locked_def connect_identify_def connect_port_def connect_detect_def
  stopTimer_def emit_def notify_def isFirmwareMode_def isWantedApp_def loadApp_def
  loadApp_load_def Signer_Sign_def Signer_Public_def closeNow_def disconnect_def timer_fire_def
  timer_expire_def timer_callback_def timer_run_def
  handle_signal_def run_action_def idleDisconnect_def wantFWName0_def wantFWName1_def
  wantAppName0_def wantAppName1_def new_calls_def extends_with_def app_matches_def timer_inv_def
  live_def live_sessions_def existing_connected_def discovery_result_def Let_def

section \<open>Properties\<close>

lemma extends_with_iff:
  "extends_with P w w' \<longleftrightarrow> (\<exists>es. calls w' = calls w @ es \<and> list_all P es)"
proof
  assume h: "extends_with P w w'"
  have "calls w' = take (length (calls w)) (calls w') @ drop (length (calls w)) (calls w')"
    by simp
  with h show "\<exists>es. calls w' = calls w @ es \<and> list_all P es"
    unfolding extends_with_def new_calls_def by metis
next
  assume "\<exists>es. calls w' = calls w @ es \<and> list_all P es"
  then show "extends_with P w w'"
    by (auto simp: extends_with_def new_calls_def)
qed

lemma extends_with_refl [simp]: "extends_with P w w"
  by (simp add: extends_with_iff)

lemma extends_with_trans:
  "extends_with P w w1 \<Longrightarrow> extends_with P w1 w2 \<Longrightarrow> extends_with P w w2"
  by (auto simp: extends_with_iff)

lemma extends_with_emit: "P (h, c) \<Longrightarrow> extends_with P w (emit h c d w)"
  by (simp add: extends_with_iff emit_def)

lemma extends_with_notify: "extends_with P w w1 \<Longrightarrow> extends_with P w (notify n w1)"
  by (simp add: extends_with_iff notify_def)

lemma extends_with_mono:
  "extends_with P w w' \<Longrightarrow> (\<And>e. P e \<Longrightarrow> Q e) \<Longrightarrow> extends_with Q w w'"
  by (auto simp: extends_with_iff list_all_iff)

lemma new_calls_append: "calls w' = calls w @ es \<Longrightarrow> new_calls w w' = es"
  by (simp add: new_calls_def)

lemma stopTimer_sel [simp]:
  "connected (stopTimer s) = connected s" "tk_open (stopTimer s) = tk_open s"
  "mu (stopTimer s) = mu s" "devPath (stopTimer s) = devPath s" "speed (stopTimer s) = speed s"
  "disconnectTimer (stopTimer s) = None" "next_timer (stopTimer s) = next_timer s"
  "sig_handlers (stopTimer s) = sig_handlers s" "exitFunc (stopTimer s) = exitFunc s"
  "enterUSS (stopTimer s) = enterUSS s" "fileUSS (stopTimer s) = fileUSS s"
  "pinentry (stopTimer s) = pinentry s" "started (stopTimer s) = started s"
  by (simp_all add: stopTimer_def split: option.splits)

lemma closeNow_calls:
  "(\<And>r. P (mu s, CallClose r)) \<Longrightarrow> extends_with P w (snd (closeNow ad s w))"
  by (simp add: closeNow_def split_beta extends_with_emit)

lemma isFirmwareMode_calls:
  "(\<And>r. P (mu s, CallGetNameVersion r)) \<Longrightarrow> extends_with P w (snd (isFirmwareMode ad s w))"
  by (simp add: isFirmwareMode_def split_beta Let_def extends_with_emit split: sum.splits)

lemma isWantedApp_calls:
  "(\<And>r. P (mu s, CallGetAppNameVersion r)) \<Longrightarrow> extends_with P w (snd (isWantedApp ad s w))"
  by (simp add: isWantedApp_def split_beta Let_def extends_with_emit split: sum.splits)

lemma loadApp_load_calls:
  assumes "\<And>bin secret r. P (mu s, CallLoadApp bin secret r)" and "extends_with P w w1"
  shows "extends_with P w (snd (loadApp_load ad s secret w1))"
proof -
  have "extends_with P w1 (snd (loadApp_load ad s secret w1))"
    using assms(1) by (simp add: loadApp_load_def split_beta Let_def extends_with_emit split: option.splits)
  with assms(2) show ?thesis by (rule extends_with_trans)
qed

lemma extends_with_emit_trans:
  "extends_with P w w1 \<Longrightarrow> P (h, c) \<Longrightarrow> extends_with P w (emit h c d w1)"
  by (simp add: extends_with_iff emit_def) auto

lemma loadApp_calls:
  assumes "\<And>bin secret r. P (mu s, CallLoadApp bin secret r)"
    and "\<And>r. P (mu s, CallGetUDI r)"
    and "\<And>udi pe r. P (mu s, CallGetSecret udi pe r)"
    and "\<And>f r. P (mu s, CallReadUSS f r)"
  shows "extends_with P w (snd (loadApp ad s w))"
  using assms
  by (simp add: loadApp_def split_beta Let_def loadApp_load_calls extends_with_emit_trans
      extends_with_notify split: sum.splits)


lemma closeNow_fst [simp]: "fst (closeNow ad s w) = s\<lparr>tk_open := False\<rparr>"
  by (simp add: closeNow_def split_beta)

lemma connect_identify_cases:
  assumes "connect_identify ad s w = (ok, s', w')"
  shows "(ok \<and> s' = s\<lparr>connected := True\<rparr>) \<or> (\<not> ok \<and> s' = s\<lparr>tk_open := False\<rparr>)"
  using assms
  by (auto simp: connect_identify_def Let_def closeNow_def split: prod.splits option.splits if_splits)

lemma connect_identify_calls:
  assumes "\<And>c. is_connect_call c \<Longrightarrow> P (mu s, c)"
  shows "extends_with P w (snd (snd (connect_identify ad s w)))"
proof -
  obtain fw w1 where a: "isFirmwareMode ad s w = (fw, w1)" by (cases "isFirmwareMode ad s w")
  obtain lr w2 where b: "(if fw then loadApp ad s w1 else (None, w1)) = (lr, w2)"
    by (cases "if fw then loadApp ad s w1 else (None, w1)")
  obtain wanted w3 where c: "isWantedApp ad s w2 = (wanted, w3)" by (cases "isWantedApp ad s w2")
  have e1: "extends_with P w w1"
    using isFirmwareMode_calls [of P s w ad] assms a by simp
  have "extends_with P w1 w2"
    using loadApp_calls [of P s w1 ad] assms b by (auto split: if_splits)
  with e1 have e2: "extends_with P w w2" by (rule extends_with_trans)
  have "extends_with P w2 w3"
    using isWantedApp_calls [of P s w2 ad] assms c by simp
  with e2 have e3: "extends_with P w w3" by (rule extends_with_trans)
  have pc: "\<And>r. P (mu s, CallClose r)" using assms by simp
  have cl: "extends_with P w wa \<Longrightarrow> extends_with P w (snd (closeNow ad s wa))" for wa
    using closeNow_calls [of P s wa ad] pc extends_with_trans by blast
  have n3: "extends_with P w (notify NoteWrongApp w3)"
    using e3 by (rule extends_with_notify)
  show ?thesis
  proof (cases lr)
    case (Some e)
    then show ?thesis using cl [OF e2] by (simp add: connect_identify_def a b c split_beta)
  next
    case None
    then show ?thesis using cl [OF n3] e3 by (simp add: connect_identify_def a b c split_beta)
  qed
qed

lemma connect_detect_calls:
  assumes "\<And>r. P (mu s, CallDetectSerialPort r)"
  shows "extends_with P w (snd (connect_detect ad s w))"
  using assms
  by (simp add: connect_detect_def Let_def split_beta extends_with_emit extends_with_notify
      split: sum.splits)


lemma connect_locked_fast:
  "connected s \<Longrightarrow> connect_locked ad s w = (True, stopTimer s, w)"
  by (simp add: connect_locked_def)

lemma connect_locked_nodev:
  assumes "\<not> connected s" and "connect_port ad (stopTimer s) w = (None, w1)"
  shows "connect_locked ad s w = (False, stopTimer s, w1)"
  using assms by (simp add: connect_locked_def)

lemma connect_locked_openfail:
  assumes "\<not> connected s" and "connect_port ad (stopTimer s) w = (Some port, w1)"
    and "ad_Connect ad port (speed s) (dev w1) = (Some e, d)"
  shows "connect_locked ad s w =
     (False, (stopTimer s)\<lparr>tk_open := False\<rparr>,
      notify (NoteCouldNotConnect port) (emit (mu s) (CallConnect port (speed s) (Some e)) d w1))"
  using assms by (simp add: connect_locked_def)

lemma connect_locked_opened:
  assumes "\<not> connected s" and "connect_port ad (stopTimer s) w = (Some port, w1)"
    and "ad_Connect ad port (speed s) (dev w1) = (None, d)"
  shows "connect_locked ad s w =
     connect_identify ad ((stopTimer s)\<lparr>tk_open := True\<rparr>)
       (emit (mu s) (CallConnect port (speed s) None) d w1)"
  using assms by (simp add: connect_locked_def)

lemma connect_port_None:
  "connect_port ad s w = (None, w1) \<Longrightarrow> devPath s = [] \<and> connect_detect ad s w = (None, w1)"
  by (simp add: connect_port_def split: if_splits)

lemma connect_port_calls:
  assumes "\<And>r. P (mu s, CallDetectSerialPort r)"
  shows "extends_with P w (snd (connect_port ad s w))"
  using connect_detect_calls [of P s w ad] assms by (simp add: connect_port_def)

lemma connect_locked_cases:
  assumes "connect_locked ad s w = (ok, s', w')"
  shows "(ok \<and> connected s \<and> s' = stopTimer s \<and> w' = w)
       \<or> (ok \<and> \<not> connected s \<and> s' = (stopTimer s)\<lparr>tk_open := True, connected := True\<rparr>)
       \<or> (\<not> ok \<and> \<not> connected s \<and> devPath s = [] \<and> s' = stopTimer s)
       \<or> (\<not> ok \<and> \<not> connected s \<and> s' = (stopTimer s)\<lparr>tk_open := False\<rparr>)"
proof (cases "connected s")
  case True
  with assms show ?thesis by (simp add: connect_locked_fast)
next
  case False
  obtain po w1 where a: "connect_port ad (stopTimer s) w = (po, w1)"
    by (cases "connect_port ad (stopTimer s) w")
  show ?thesis
  proof (cases po)
    case None
    with a have "devPath s = []"
      using connect_port_None [of ad "stopTimer s" w w1] by simp
    with assms False connect_locked_nodev [OF False a [unfolded None]] show ?thesis by auto
  next
    case (Some port)
    obtain r d where c: "ad_Connect ad port (speed s) (dev w1) = (r, d)"
      by (cases "ad_Connect ad port (speed s) (dev w1)")
    show ?thesis
    proof (cases r)
      case None
      have "connect_identify ad ((stopTimer s)\<lparr>tk_open := True\<rparr>)
         (emit (mu s) (CallConnect port (speed s) None) d w1) = (ok, s', w')"
        using assms connect_locked_opened [OF False a [unfolded Some] c [unfolded None]] by simp
      from connect_identify_cases [OF this] False show ?thesis by auto
    next
      case (Some e)
      with assms False a \<open>po = Some port\<close> c show ?thesis
        by (simp add: connect_locked_openfail)
    qed
  qed
qed

lemma connect_locked_calls:
  assumes "\<And>c. is_connect_call c \<Longrightarrow> P (mu s, c)"
  shows "extends_with P w (snd (snd (connect_locked ad s w)))"
proof (cases "connected s")
  case True
  then show ?thesis by (simp add: connect_locked_fast)
next
  case False
  obtain po w1 where a: "connect_port ad (stopTimer s) w = (po, w1)"
    by (cases "connect_port ad (stopTimer s) w")
  have e1: "extends_with P w w1"
    using connect_port_calls [of P "stopTimer s" w ad] assms a by simp
  show ?thesis
  proof (cases po)
    case None
    with e1 connect_locked_nodev [OF False a [unfolded None]] show ?thesis by simp
  next
    case (Some port)
    obtain r d where c: "ad_Connect ad port (speed s) (dev w1) = (r, d)"
      by (cases "ad_Connect ad port (speed s) (dev w1)")
    have e2: "extends_with P w (emit (mu s) (CallConnect port (speed s) r) d w1)"
      using e1 assms by (simp add: extends_with_emit_trans)
    show ?thesis
    proof (cases r)
      case None
      let ?s2 = "(stopTimer s)\<lparr>tk_open := True\<rparr>"
      let ?w2 = "emit (mu s) (CallConnect port (speed s) None) d w1"
      have "extends_with P ?w2 (snd (snd (connect_identify ad ?s2 ?w2)))"
        using connect_identify_calls [of P ?s2 ?w2 ad] assms by simp
      with e2 [unfolded None] have "extends_with P w (snd (snd (connect_identify ad ?s2 ?w2)))"
        by (rule extends_with_trans)
      then show ?thesis
        using connect_locked_opened [OF False a [unfolded Some] c [unfolded None]] by simp
    next
      case (Some e)
      have "connect_locked ad s w = (False, (stopTimer s)\<lparr>tk_open := False\<rparr>,
          notify (NoteCouldNotConnect port) (emit (mu s) (CallConnect port (speed s) (Some e)) d w1))"
        using connect_locked_openfail [OF False a [unfolded \<open>po = Some port\<close>] c [unfolded Some]] .
      then show ?thesis using e2 [unfolded Some] by (simp add: extends_with_notify)
    qed
  qed
qed

lemma connect_calls:
  "extends_with (\<lambda>e. fst e \<and> is_connect_call (snd e)) w (snd (snd (connect ad s w)))"
  using connect_locked_calls [of "\<lambda>e. fst e \<and> is_connect_call (snd e)" "s\<lparr>mu := True\<rparr>" w ad]
  by (simp add: connect_def split_beta)


lemma stopTimer_mu_update: "stopTimer (s\<lparr>mu := b\<rparr>) = (stopTimer s)\<lparr>mu := b\<rparr>"
  by (simp add: stopTimer_def split: option.splits)

lemma connect_cases:
  assumes "connect ad s w = (ok, s', w')"
  shows "(ok \<and> connected s \<and> s' = (stopTimer s)\<lparr>mu := False\<rparr> \<and> w' = w)
       \<or> (ok \<and> \<not> connected s \<and> s' = (stopTimer s)\<lparr>tk_open := True, connected := True, mu := False\<rparr>)
       \<or> (\<not> ok \<and> \<not> connected s \<and> devPath s = [] \<and> s' = (stopTimer s)\<lparr>mu := False\<rparr>)
       \<or> (\<not> ok \<and> \<not> connected s \<and> s' = (stopTimer s)\<lparr>tk_open := False, mu := False\<rparr>)"
proof -
  obtain s1 where a: "connect_locked ad (s\<lparr>mu := True\<rparr>) w = (ok, s1, w')" and b: "s' = s1\<lparr>mu := False\<rparr>"
    using assms by (auto simp: connect_def split: prod.splits)
  from connect_locked_cases [OF a] b show ?thesis
    by (auto simp: stopTimer_mu_update)
qed

lemma connect_fast: "connected s \<Longrightarrow> connect ad s w = (True, (stopTimer s)\<lparr>mu := False\<rparr>, w)"
  by (simp add: connect_def connect_locked_fast stopTimer_mu_update)

lemma isWantedApp_eq:
  "isWantedApp ad s w =
     (app_matches (fst (ad_GetAppNameVersion ad (dev w))),
      emit (mu s) (CallGetAppNameVersion (fst (ad_GetAppNameVersion ad (dev w))))
        (snd (ad_GetAppNameVersion ad (dev w))) w)"
  by (simp add: isWantedApp_def app_matches_def split_beta Let_def split: sum.splits)

lemma closeNow_eq:
  "closeNow ad s w =
     (s\<lparr>tk_open := False\<rparr>,
      emit (mu s) (CallClose (fst (ad_Close ad (dev w)))) (snd (ad_Close ad (dev w))) w)"
  by (simp add: closeNow_def split_beta)

lemma not_appname_simps [simp]:
  "not_appname (h, CallGetAppNameVersion r) = False"
  "not_appname (h, CallDetectSerialPort r1) = True"
  "not_appname (h, CallConnect p sp r2) = True"
  "not_appname (h, CallGetNameVersion r3) = True"
  "not_appname (h, CallGetUDI r4) = True"
  "not_appname (h, CallGetSecret u pe r5) = True"
  "not_appname (h, CallReadUSS f r6) = True"
  "not_appname (h, CallLoadApp b sec r7) = True"
  "not_appname (h, CallClose r8) = True"
  by (simp_all add: not_appname_def)

lemma connect_identify_trace:
  assumes "connect_identify ad s w = (ok, s', w')"
  shows "\<exists>es. calls w' = calls w @ es
            \<and> (\<forall>h r. (h, CallGetAppNameVersion r) \<in> set es \<longrightarrow> (ok \<longleftrightarrow> app_matches r))
            \<and> (\<not> ok \<longrightarrow> (\<exists>es' rc. es = es' @ [(mu s, CallClose rc)]))"
proof -
  obtain fw w1 where a: "isFirmwareMode ad s w = (fw, w1)" by (cases "isFirmwareMode ad s w")
  obtain lr w2 where b: "(if fw then loadApp ad s w1 else (None, w1)) = (lr, w2)"
    by (cases "if fw then loadApp ad s w1 else (None, w1)")
  have "extends_with not_appname w w1"
    using isFirmwareMode_calls [of not_appname s w ad] a by simp
  moreover have "extends_with not_appname w1 w2"
    using loadApp_calls [of not_appname s w1 ad] b by (auto split: if_splits)
  ultimately have "extends_with not_appname w w2" by (rule extends_with_trans)
  then obtain es2 where e2: "calls w2 = calls w @ es2" and n2: "list_all not_appname es2"
    by (auto simp: extends_with_iff)
  have n2': "(h, CallGetAppNameVersion r) \<notin> set es2" for h r
    using n2 by (auto simp: list_all_iff)
  show ?thesis
  proof (cases lr)
    case (Some e)
    then have "\<not> ok" and "calls w' = calls w @ es2 @ [(mu s, CallClose (fst (ad_Close ad (dev w2))))]"
      using assms e2 by (auto simp: connect_identify_def a b closeNow_eq emit_def)
    then show ?thesis using n2' by auto
  next
    case None
    let ?r = "fst (ad_GetAppNameVersion ad (dev w2))"
    let ?w3 = "emit (mu s) (CallGetAppNameVersion ?r) (snd (ad_GetAppNameVersion ad (dev w2))) w2"
    show ?thesis
    proof (cases "app_matches ?r")
      case True
      then have "ok" and "calls w' = calls w @ es2 @ [(mu s, CallGetAppNameVersion ?r)]"
        using assms e2 None by (auto simp: connect_identify_def a b isWantedApp_eq emit_def)
      then show ?thesis using n2' True by auto
    next
      case False
      then have "\<not> ok" and "calls w' = calls w @ (es2 @ [(mu s, CallGetAppNameVersion ?r)])
           @ [(mu s, CallClose (fst (ad_Close ad (dev (notify NoteWrongApp ?w3)))))]"
        using assms e2 None
        by (auto simp: connect_identify_def a b isWantedApp_eq closeNow_eq emit_def notify_def)
      then show ?thesis using n2' False by auto
    qed
  qed
qed


lemma connect_locked_trace:
  assumes "connect_locked ad s w = (ok, s', w')"
  shows "\<exists>es. calls w' = calls w @ es
            \<and> (\<forall>h r. (h, CallGetAppNameVersion r) \<in> set es \<longrightarrow>
                   (ok \<longleftrightarrow> app_matches r)
                   \<and> (\<not> ok \<longrightarrow> \<not> tk_open s' \<and> (\<exists>es' rc. es = es' @ [(mu s, CallClose rc)])))"
proof (cases "connected s")
  case True
  with assms show ?thesis by (simp add: connect_locked_fast)
next
  case False
  obtain po w1 where a: "connect_port ad (stopTimer s) w = (po, w1)"
    by (cases "connect_port ad (stopTimer s) w")
  have "extends_with not_appname w w1"
    using connect_port_calls [of not_appname "stopTimer s" w ad] a by simp
  then obtain es1 where e1: "calls w1 = calls w @ es1" and n1: "list_all not_appname es1"
    by (auto simp: extends_with_iff)
  have n1': "(h, CallGetAppNameVersion r) \<notin> set es1" for h r
    using n1 by (auto simp: list_all_iff)
  show ?thesis
  proof (cases po)
    case None
    with assms connect_locked_nodev [OF False a [unfolded None]] have "w' = w1" by simp
    with e1 n1' show ?thesis by auto
  next
    case (Some port)
    obtain r d where c: "ad_Connect ad port (speed s) (dev w1) = (r, d)"
      by (cases "ad_Connect ad port (speed s) (dev w1)")
    show ?thesis
    proof (cases r)
      case None
      let ?s2 = "(stopTimer s)\<lparr>tk_open := True\<rparr>"
      let ?w2 = "emit (mu s) (CallConnect port (speed s) None) d w1"
      have i: "connect_identify ad ?s2 ?w2 = (ok, s', w')"
        using assms connect_locked_opened [OF False a [unfolded Some] c [unfolded None]] by simp
      from connect_identify_trace [OF i] obtain es where
        t1: "calls w' = calls ?w2 @ es" and
        t2: "\<forall>h r. (h, CallGetAppNameVersion r) \<in> set es \<longrightarrow> (ok \<longleftrightarrow> app_matches r)" and
        t3: "\<not> ok \<longrightarrow> (\<exists>es' rc. es = es' @ [(mu s, CallClose rc)])"
        by auto
      have t4: "\<not> ok \<longrightarrow> \<not> tk_open s'"
        using connect_identify_cases [OF i] by auto
      have c1: "calls w' = calls w @ ((es1 @ [(mu s, CallConnect port (speed s) None)]) @ es)"
        using t1 e1 by (simp add: emit_def)
      have c2: "(h, CallGetAppNameVersion r) \<in> set ((es1 @ [(mu s, CallConnect port (speed s) None)]) @ es)
          \<Longrightarrow> (h, CallGetAppNameVersion r) \<in> set es" for h r
        using n1' by auto
      have c3: "\<not> ok \<longrightarrow> (\<exists>es' rc. (es1 @ [(mu s, CallConnect port (speed s) None)]) @ es = es' @ [(mu s, CallClose rc)])"
      proof
        assume "\<not> ok"
        with t3 obtain es' rc where "es = es' @ [(mu s, CallClose rc)]" by auto
        then have "(es1 @ [(mu s, CallConnect port (speed s) None)]) @ es
            = ((es1 @ [(mu s, CallConnect port (speed s) None)]) @ es') @ [(mu s, CallClose rc)]"
          by simp
        then show "\<exists>es' rc. (es1 @ [(mu s, CallConnect port (speed s) None)]) @ es = es' @ [(mu s, CallClose rc)]"
          by blast
      qed
      show ?thesis
        using c1 c2 c3 t2 t4 by blast
    next
      case (Some e)
      have "connect_locked ad s w = (False, (stopTimer s)\<lparr>tk_open := False\<rparr>,
          notify (NoteCouldNotConnect port) (emit (mu s) (CallConnect port (speed s) (Some e)) d w1))"
        using connect_locked_openfail [OF False a [unfolded \<open>po = Some port\<close>] c [unfolded Some]] .
      with assms have "calls w' = calls w @ (es1 @ [(mu s, CallConnect port (speed s) (Some e))])"
        using e1 by (auto simp: notify_def emit_def)
      moreover have "(h, CallGetAppNameVersion r) \<notin> set (es1 @ [(mu s, CallConnect port (speed s) (Some e))])" for h r
        using n1' by auto
      ultimately show ?thesis by blast
    qed
  qed
qed

lemma world_sel:
  "calls (emit h c d w) = calls w @ [(h, c)]" "dev (emit h c d w) = d"
  "notices (emit h c d w) = notices w"
  "calls (notify n w) = calls w" "dev (notify n w) = dev w" "notices (notify n w) = notices w @ [n]"
  by (simp_all add: emit_def notify_def)

lemma connect_identify_rejected:
  assumes "connect_identify (ad :: 'd adapter) s w = (ok, s', w')"
    and "(h, CallGetAppNameVersion r) \<in> set (new_calls w w')"
    and "\<not> app_matches r"
  shows "\<exists>(wa :: 'd world) es'. calls wa = calls w @ es' \<and> r = fst (ad_GetAppNameVersion ad (dev wa))
           \<and> dev w' = snd (ad_Close ad (snd (ad_GetAppNameVersion ad (dev wa))))
           \<and> calls w' = calls wa @ [(mu s, CallGetAppNameVersion r),
                 (mu s, CallClose (fst (ad_Close ad (snd (ad_GetAppNameVersion ad (dev wa))))))]
           \<and> notices w' = notices wa @ [NoteWrongApp]"
proof -
  obtain fw w1 where a: "isFirmwareMode ad s w = (fw, w1)" by (cases "isFirmwareMode ad s w")
  obtain lr w2 where b: "(if fw then loadApp ad s w1 else (None, w1)) = (lr, w2)"
    by (cases "if fw then loadApp ad s w1 else (None, w1)")
  have "extends_with not_appname w w1"
    using isFirmwareMode_calls [of not_appname s w ad] a by simp
  moreover have "extends_with not_appname w1 w2"
    using loadApp_calls [of not_appname s w1 ad] b by (auto split: if_splits)
  ultimately have "extends_with not_appname w w2" by (rule extends_with_trans)
  then obtain es2 where e2: "calls w2 = calls w @ es2" and n2: "list_all not_appname es2"
    by (auto simp: extends_with_iff)
  have n2': "(h, CallGetAppNameVersion r) \<notin> set es2"
    using n2 by (auto simp: list_all_iff)
  let ?r = "fst (ad_GetAppNameVersion ad (dev w2))"
  let ?dq = "snd (ad_GetAppNameVersion ad (dev w2))"
  show ?thesis
  proof (cases lr)
    case (Some e)
    then have "calls w' = calls w @ es2 @ [(mu s, CallClose (fst (ad_Close ad (dev w2))))]"
      using assms(1) e2 by (auto simp: connect_identify_def a b closeNow_eq world_sel)
    with assms(2) n2' show ?thesis by (simp add: new_calls_def)
  next
    case None
    show ?thesis
    proof (cases "app_matches ?r")
      case True
      then have "calls w' = calls w @ es2 @ [(mu s, CallGetAppNameVersion ?r)]"
        using assms(1) e2 None by (auto simp: connect_identify_def a b isWantedApp_eq world_sel)
      with assms(2) n2' have "r = ?r" by (simp add: new_calls_def)
      with True assms(3) show ?thesis by simp
    next
      case False
      then have w': "w' = emit (mu s) (CallClose (fst (ad_Close ad ?dq))) (snd (ad_Close ad ?dq))
          (notify NoteWrongApp (emit (mu s) (CallGetAppNameVersion ?r) ?dq w2))"
        using assms(1) None by (auto simp: connect_identify_def a b isWantedApp_eq closeNow_eq world_sel)
      then have c: "calls w' = calls w @ es2 @ [(mu s, CallGetAppNameVersion ?r),
          (mu s, CallClose (fst (ad_Close ad ?dq)))]"
        using e2 by (simp add: world_sel)
      with assms(2) n2' have r: "r = ?r" by (simp add: new_calls_def)
      have X: "calls w2 = calls w @ es2 \<and> r = ?r \<and> dev w' = snd (ad_Close ad ?dq)
          \<and> calls w' = calls w2 @ [(mu s, CallGetAppNameVersion r), (mu s, CallClose (fst (ad_Close ad ?dq)))]
          \<and> notices w' = notices w2 @ [NoteWrongApp]"
        using e2 r w' by (simp add: world_sel)
      show ?thesis by (rule_tac x = w2 in exI, rule_tac x = es2 in exI) (rule X)
    qed
  qed
qed

lemma connect_locked_rejected:
  assumes "connect_locked (ad :: 'd adapter) s w = (ok, s', w')"
    and "(h, CallGetAppNameVersion r) \<in> set (new_calls w w')"
    and "\<not> app_matches r"
  shows "\<exists>(wa :: 'd world) es'. calls wa = calls w @ es' \<and> r = fst (ad_GetAppNameVersion ad (dev wa))
           \<and> dev w' = snd (ad_Close ad (snd (ad_GetAppNameVersion ad (dev wa))))
           \<and> calls w' = calls wa @ [(mu s, CallGetAppNameVersion r),
                 (mu s, CallClose (fst (ad_Close ad (snd (ad_GetAppNameVersion ad (dev wa))))))]
           \<and> notices w' = notices wa @ [NoteWrongApp]"
proof (cases "connected s")
  case True
  with assms show ?thesis by (simp add: connect_locked_fast new_calls_def)
next
  case False
  obtain po w1 where a: "connect_port ad (stopTimer s) w = (po, w1)"
    by (cases "connect_port ad (stopTimer s) w")
  have "extends_with not_appname w w1"
    using connect_port_calls [of not_appname "stopTimer s" w ad] a by simp
  then obtain es1 where e1: "calls w1 = calls w @ es1" and n1: "list_all not_appname es1"
    by (auto simp: extends_with_iff)
  have n1': "(h, CallGetAppNameVersion r) \<notin> set es1"
    using n1 by (auto simp: list_all_iff)
  show ?thesis
  proof (cases po)
    case None
    with assms(1) connect_locked_nodev [OF False a [unfolded None]] have "w' = w1" by simp
    with e1 n1' assms(2) show ?thesis by (simp add: new_calls_def)
  next
    case (Some port)
    obtain rc d where c: "ad_Connect ad port (speed s) (dev w1) = (rc, d)"
      by (cases "ad_Connect ad port (speed s) (dev w1)")
    show ?thesis
    proof (cases rc)
      case None
      let ?s2 = "(stopTimer s)\<lparr>tk_open := True\<rparr>"
      let ?w2 = "emit (mu s) (CallConnect port (speed s) None) d w1"
      have i: "connect_identify ad ?s2 ?w2 = (ok, s', w')"
        using assms(1) connect_locked_opened [OF False a [unfolded Some] c [unfolded None]] by simp
      from connect_identify_trace [OF i] obtain es where t1: "calls w' = calls ?w2 @ es"
        by auto
      have c2: "calls ?w2 = calls w @ es1 @ [(mu s, CallConnect port (speed s) None)]"
        using e1 by (simp add: world_sel)
      have "(h, CallGetAppNameVersion r) \<in> set es"
        using assms(2) t1 c2 n1' by (simp add: new_calls_def)
      then have m: "(h, CallGetAppNameVersion r) \<in> set (new_calls ?w2 w')"
        using t1 by (simp add: new_calls_def)
      from connect_identify_rejected [OF i m assms(3)] obtain wa :: "'d world" and es' where
        q: "calls wa = calls ?w2 @ es'" "r = fst (ad_GetAppNameVersion ad (dev wa))"
          "dev w' = snd (ad_Close ad (snd (ad_GetAppNameVersion ad (dev wa))))"
          "calls w' = calls wa @ [(mu ?s2, CallGetAppNameVersion r),
                 (mu ?s2, CallClose (fst (ad_Close ad (snd (ad_GetAppNameVersion ad (dev wa))))))]"
          "notices w' = notices wa @ [NoteWrongApp]"
        by blast
      let ?es = "es1 @ [(mu s, CallConnect port (speed s) None)] @ es'"
      have Y: "calls wa = calls w @ ?es \<and> r = fst (ad_GetAppNameVersion ad (dev wa))
           \<and> dev w' = snd (ad_Close ad (snd (ad_GetAppNameVersion ad (dev wa))))
           \<and> calls w' = calls wa @ [(mu s, CallGetAppNameVersion r),
                 (mu s, CallClose (fst (ad_Close ad (snd (ad_GetAppNameVersion ad (dev wa))))))]
           \<and> notices w' = notices wa @ [NoteWrongApp]"
        using q c2 by simp
      show ?thesis
        by (rule_tac x = wa in exI,
            rule_tac x = "es1 @ [(mu s, CallConnect port (speed s) None)] @ es'" in exI) (rule Y)
    next
      case (Some e)
      have "connect_locked ad s w = (False, (stopTimer s)\<lparr>tk_open := False\<rparr>,
          notify (NoteCouldNotConnect port) (emit (mu s) (CallConnect port (speed s) (Some e)) d w1))"
        using connect_locked_openfail [OF False a [unfolded \<open>po = Some port\<close>] c [unfolded Some]] .
      with assms(1) have "calls w' = calls w @ (es1 @ [(mu s, CallConnect port (speed s) (Some e))])"
        using e1 by (auto simp: world_sel)
      with assms(2) n1' show ?thesis by (simp add: new_calls_def)
    qed
  qed
qed

text \<open>
  Claim C6. Whenever the app-identity query made during a \<^verbatim>\<open>connect\<close> gets an answer that
  is not the wanted signer app (an error, or another name; also after firmware mode was
  reported and the app load succeeded), \<^verbatim>\<open>connect\<close> returns false and the session is not
  marked connected. The query was put to the device, and the very next thing done to the
  device is the close of the transport, under the mutex: the device is left in the state the
  close produces, the close and its answer end the call log, and the user has been told to
  replug. The handle is left without an open connection.
\<close>

theorem connect_wrong_app_closes:
  assumes "connect (ad :: 'd adapter) s w = (ok, s', w')"
    and "(h, CallGetAppNameVersion r) \<in> set (new_calls w w')"
    and "\<not> app_matches r"
  shows "\<not> ok \<and> \<not> connected s' \<and> \<not> tk_open s'
       \<and> (\<exists>(wa :: 'd world) es'. calls wa = calls w @ es' \<and> r = fst (ad_GetAppNameVersion ad (dev wa))
              \<and> dev w' = snd (ad_Close ad (snd (ad_GetAppNameVersion ad (dev wa))))
              \<and> calls w' = calls wa @ [(True, CallGetAppNameVersion r),
                    (True, CallClose (fst (ad_Close ad (snd (ad_GetAppNameVersion ad (dev wa))))))]
              \<and> notices w' = notices wa @ [NoteWrongApp])"
proof -
  obtain s1 where a: "connect_locked ad (s\<lparr>mu := True\<rparr>) w = (ok, s1, w')" and b: "s' = s1\<lparr>mu := False\<rparr>"
    using assms(1) by (auto simp: connect_def split: prod.splits)
  from connect_locked_trace [OF a] obtain es where
    t1: "calls w' = calls w @ es" and
    t2: "\<forall>h r. (h, CallGetAppNameVersion r) \<in> set es \<longrightarrow>
                   (ok \<longleftrightarrow> app_matches r)
                   \<and> (\<not> ok \<longrightarrow> \<not> tk_open s1 \<and> (\<exists>es' rc. es = es' @ [(True, CallClose rc)]))"
    by auto
  have "(h, CallGetAppNameVersion r) \<in> set es"
    using assms(2) t1 by (simp add: new_calls_def)
  with t2 assms(3) have n: "\<not> ok" and o: "\<not> tk_open s1"
    by blast+
  have k: "\<not> connected s'"
    using connect_cases [OF assms(1)] n by auto
  from connect_locked_rejected [OF a assms(2,3)] n o k b show ?thesis by simp
qed

theorem connect_wrong_app_closes_witness:
  "(True, CallGetAppNameVersion (Inr \<lparr>Name0 = ''tk1 '', Name1 = ''rand'', Version = 1\<rparr>))
     \<in> set (new_calls w0 (snd (snd (connect sim_wrong_after_load s0 w0))))
   \<and> \<not> app_matches (Inr \<lparr>Name0 = ''tk1 '', Name1 = ''rand'', Version = 1\<rparr>)
   \<and> \<not> fst (connect sim_wrong_after_load s0 w0)
   \<and> \<not> connected (fst (snd (connect sim_wrong_after_load s0 w0)))
   \<and> \<not> tk_open (fst (snd (connect sim_wrong_after_load s0 w0)))
   \<and> calls (snd (snd (connect sim_wrong_after_load s0 w0)))
       = [(True, CallConnect ''/dev/ttyACM0'' 62500 None),
          (True, CallGetNameVersion (Inr \<lparr>Name0 = ''tk1 '', Name1 = ''mkdf'', Version = 5\<rparr>)),
          (True, CallGetUDI (Inr ''0133708100000002'')),
          (True, CallGetSecret ''0133708100000002'' [] (Inr [1, 2, 3])),
          (True, CallLoadApp [127, 69, 76, 70] [1, 2, 3] None),
          (True, CallGetAppNameVersion (Inr \<lparr>Name0 = ''tk1 '', Name1 = ''rand'', Version = 1\<rparr>)),
          (True, CallClose None)]
   \<and> \<not> port_open (dev (snd (snd (connect sim_wrong_after_load s0 w0))))
   \<and> notices (snd (snd (connect sim_wrong_after_load s0 w0))) = [NoteWrongApp]"
  using connect_wrong_app_closes [of sim_wrong_after_load s0 w0
      "fst (connect sim_wrong_after_load s0 w0)" "fst (snd (connect sim_wrong_after_load s0 w0))"
      "snd (snd (connect sim_wrong_after_load s0 w0))" True
      "Inr \<lparr>Name0 = ''tk1 '', Name1 = ''rand'', Version = 1\<rparr>"]
  by (simp add: run_defs sim_defs)

lemma stopTimer_armed: "timer_inv s \<Longrightarrow> armed (stopTimer s) = []"
  by (auto simp: timer_inv_def stopTimer_def split: option.splits)

lemma timer_inv_NewSigner: "timer_inv (NewSigner port sp eu fu pe ef)"
  by (simp add: timer_inv_def NewSigner_def)

lemma timer_inv_stopTimer: "timer_inv s \<Longrightarrow> timer_inv (stopTimer s)"
  by (simp add: timer_inv_def stopTimer_def split: option.splits)

lemma timer_inv_connect:
  assumes "timer_inv s"
  shows "timer_inv (fst (snd (connect ad s w)))"
proof -
  obtain ok s' w' where c: "connect ad s w = (ok, s', w')" by (cases "connect ad s w")
  have "timer_inv (stopTimer s)" using assms by (rule timer_inv_stopTimer)
  then show ?thesis
    using connect_cases [OF c] c by (auto simp: timer_inv_def)
qed

lemma disconnect_connected:
  "connected s \<Longrightarrow>
   disconnect s = (stopTimer s)\<lparr>disconnectTimer := Some (next_timer s),
      armed := armed (stopTimer s) @ [(next_timer s, idleDisconnect)],
      next_timer := Suc (next_timer s), mu := False\<rparr>"
  by (simp add: disconnect_def Let_def stopTimer_mu_update)

lemma disconnect_not_connected: "\<not> connected s \<Longrightarrow> disconnect s = s\<lparr>mu := False\<rparr>"
  by (simp add: disconnect_def Let_def)

lemma disconnect_sel [simp]:
  "connected (disconnect s) = connected s" "tk_open (disconnect s) = tk_open s"
  "mu (disconnect s) = False" "devPath (disconnect s) = devPath s"
  "sig_handlers (disconnect s) = sig_handlers s" "exitFunc (disconnect s) = exitFunc s"
  by (cases "connected s"; simp add: disconnect_connected disconnect_not_connected)+

lemma timer_inv_disconnect: "timer_inv s \<Longrightarrow> timer_inv (disconnect s)"
  by (cases "connected s")
     (simp_all add: disconnect_connected disconnect_not_connected timer_inv_def stopTimer_def
        split: option.splits)

lemma timer_fire_armed:
  assumes "t \<in> fst ` set (armed s)"
  shows "timer_fire ad t s w =
     (s\<lparr>armed := filter (\<lambda>(i, d). i \<noteq> t) (armed s), started := remove1 t (started s @ [t]),
        mu := False, tk_open := False, connected := False, disconnectTimer := None\<rparr>,
      emit True (CallClose (fst (ad_Close ad (dev w)))) (snd (ad_Close ad (dev w))) w)"
  using assms by (simp add: timer_fire_def timer_run_def timer_expire_def timer_callback_def closeNow_eq)

lemma timer_fire_not_armed: "t \<notin> fst ` set (armed s) \<Longrightarrow> timer_fire ad t s w = (s, w)"
  by (simp add: timer_fire_def)

lemma timer_inv_timer_fire: "timer_inv s \<Longrightarrow> timer_inv (fst (timer_fire ad t s w))"
  by (cases "t \<in> fst ` set (armed s)")
     (auto simp: timer_fire_armed timer_fire_not_armed timer_inv_def split: option.splits)

text \<open>
  What \<^verbatim>\<open>disconnect\<close> does on a connected session whose only armed timer is the one its handle
  names: it makes no call on the device and leaves the transport open and the session
  connected; it leaves exactly one armed timer, with the fixed delay \<^verbatim>\<open>idleDisconnect\<close>. No
  other timer does anything. When that timer expires and its function runs at once, the
  transport is closed (under the mutex), the session is marked disconnected and no timer stays
  armed. A \<^verbatim>\<open>connect\<close> that comes before the timer has expired succeeds without any call,
  keeps the transport, and stops the timer: it cannot expire afterwards.
\<close>

lemma disconnect_then_fire_or_connect:
  assumes "connected s" and "timer_inv s"
  shows "connected (disconnect s) \<and> tk_open (disconnect s) = tk_open s
       \<and> disconnectTimer (disconnect s) = Some (next_timer s)
       \<and> armed (disconnect s) = [(next_timer s, idleDisconnect)]
       \<and> (\<forall>t. t \<noteq> next_timer s \<longrightarrow> timer_fire ad t (disconnect s) w = (disconnect s, w))
       \<and> \<not> connected (fst (timer_fire ad (next_timer s) (disconnect s) w))
       \<and> \<not> tk_open (fst (timer_fire ad (next_timer s) (disconnect s) w))
       \<and> armed (fst (timer_fire ad (next_timer s) (disconnect s) w)) = []
       \<and> calls (snd (timer_fire ad (next_timer s) (disconnect s) w))
           = calls w @ [(True, CallClose (fst (ad_Close ad (dev w))))]
       \<and> fst (connect ad (disconnect s) w)
       \<and> snd (snd (connect ad (disconnect s) w)) = w
       \<and> connected (fst (snd (connect ad (disconnect s) w)))
       \<and> tk_open (fst (snd (connect ad (disconnect s) w))) = tk_open s
       \<and> disconnectTimer (fst (snd (connect ad (disconnect s) w))) = None
       \<and> armed (fst (snd (connect ad (disconnect s) w))) = []
       \<and> timer_fire ad (next_timer s) (fst (snd (connect ad (disconnect s) w))) w
           = (fst (snd (connect ad (disconnect s) w)), w)"
proof -
  let ?t = "next_timer s"
  let ?d = "disconnect s"
  have a0: "armed (stopTimer s) = []" using assms(2) by (rule stopTimer_armed)
  have d1: "disconnectTimer ?d = Some ?t" and d2: "armed ?d = [(?t, idleDisconnect)]"
    using assms(1) a0 by (simp_all add: disconnect_connected)
  have d3: "connected ?d" and d4: "tk_open ?d = tk_open s"
    using assms(1) by simp_all
  have f0: "timer_fire ad t ?d w = (?d, w)" if "t \<noteq> ?t" for t
    using that d2 by (simp add: timer_fire_not_armed)
  have "?t \<in> fst ` set (armed ?d)" using d2 by simp
  note f = timer_fire_armed [OF this, of ad w]
  have f1: "\<not> connected (fst (timer_fire ad ?t ?d w))"
    and f2: "\<not> tk_open (fst (timer_fire ad ?t ?d w))"
    and f3: "armed (fst (timer_fire ad ?t ?d w)) = []"
    and f4: "calls (snd (timer_fire ad ?t ?d w)) = calls w @ [(True, CallClose (fst (ad_Close ad (dev w))))]"
    using d2 by (simp_all add: f emit_def)
  have c: "connect ad ?d w = (True, (stopTimer ?d)\<lparr>mu := False\<rparr>, w)"
    using d3 by (rule connect_fast)
  have ti: "timer_inv ?d" using assms(2) by (rule timer_inv_disconnect)
  have c1: "armed (fst (snd (connect ad ?d w))) = []"
    using stopTimer_armed [OF ti] by (simp add: c)
  have c2: "timer_fire ad ?t (fst (snd (connect ad ?d w))) w = (fst (snd (connect ad ?d w)), w)"
    using c1 by (simp add: timer_fire_not_armed)
  show ?thesis
    using d1 d2 d3 d4 f0 f1 f2 f3 f4 c1 c2 by (simp add: c)
qed



text \<open>
  \<^verbatim>\<open>connect\<close> has no effect on a timer function that has already been started: on a connected
  session it takes the fast path and returns true, and the function, when it then runs, closes
  the transport and marks the session disconnected.
\<close>

lemma timer_run_started:
  assumes "t \<in> set (started s)"
  shows "timer_run ad t s w =
     (s\<lparr>started := remove1 t (started s), mu := False, tk_open := False, connected := False,
        disconnectTimer := None\<rparr>,
      emit True (CallClose (fst (ad_Close ad (dev w)))) (snd (ad_Close ad (dev w))) w)"
  using assms by (simp add: timer_run_def timer_callback_def closeNow_eq)

lemma timer_run_not_started: "t \<notin> set (started s) \<Longrightarrow> timer_run ad t s w = (s, w)"
  by (simp add: timer_run_def)

lemma timer_expire_armed:
  "t \<in> fst ` set (armed s) \<Longrightarrow> t \<in> set (started (timer_expire t s)) \<and> connected (timer_expire t s) = connected s"
  by (simp add: timer_expire_def)

lemma late_callback_closes:
  assumes "connected s" and "t \<in> set (started s)"
  shows "connect ad s w = (True, (stopTimer s)\<lparr>mu := False\<rparr>, w)
       \<and> connected (fst (snd (connect ad s w)))
       \<and> \<not> connected (fst (timer_run ad t (fst (snd (connect ad s w))) w))
       \<and> \<not> tk_open (fst (timer_run ad t (fst (snd (connect ad s w))) w))
       \<and> dev (snd (timer_run ad t (fst (snd (connect ad s w))) w)) = snd (ad_Close ad (dev w))
       \<and> calls (snd (timer_run ad t (fst (snd (connect ad s w))) w))
           = calls w @ [(True, CallClose (fst (ad_Close ad (dev w))))]"
proof -
  have c: "connect ad s w = (True, (stopTimer s)\<lparr>mu := False\<rparr>, w)"
    using assms(1) by (rule connect_fast)
  have "t \<in> set (started ((stopTimer s)\<lparr>mu := False\<rparr>))" using assms(2) by simp
  note r = timer_run_started [OF this, of ad w]
  show ?thesis using assms(1) by (simp add: c r world_sel)
qed

text \<open>
  Claim C7, at the run where the code departs from it. The session is connected and
  \<^verbatim>\<open>disconnect\<close> has armed timer 0. The timer expires, so that its function is started. A
  \<^verbatim>\<open>connect\<close> comes before that function has the mutex: its \<^verbatim>\<open>Stop\<close> finds nothing to stop,
  it returns true without a call and the session is connected with its transport open. The
  timer function then runs: the transport is closed and the session marked disconnected,
  after the intervening \<^verbatim>\<open>connect\<close>.
\<close>

theorem late_stop_close_still_happens:
  "connected s_conn \<and> armed s_idle = [(0, idleDisconnect)] \<and> disconnectTimer s_idle = Some 0
   \<and> armed s_expired = [] \<and> started s_expired = [0]
   \<and> fst late_connect \<and> snd (snd late_connect) = w_conn
   \<and> connected (fst (snd late_connect)) \<and> tk_open (fst (snd late_connect))
   \<and> disconnectTimer (fst (snd late_connect)) = None
   \<and> port_open (dev w_conn)
   \<and> \<not> connected (fst late_close) \<and> \<not> tk_open (fst late_close)
   \<and> calls (snd late_close) = calls w_conn @ [(True, CallClose None)]
   \<and> \<not> port_open (dev (snd late_close))"
  by (simp add: run_defs sim_defs)

lemma handle_signal_NewSigner_handlers:
  assumes "sig_handlers s = sig_handlers (NewSigner port sp eu fu pe ef)"
  shows "handle_signal ad sg s w =
     (if sg = SIGINT \<or> sg = SIGTERM then
        (s\<lparr>tk_open := False\<rparr>,
         emit (mu s) (CallExit (exitFunc s 1)) (snd (ad_Close ad (dev w)))
           (emit (mu s) (CallClose (fst (ad_Close ad (dev w)))) (snd (ad_Close ad (dev w))) w))
      else (s, w))"
  using assms
  by (cases sg) (simp_all add: handle_signal_def NewSigner_def run_action_def closeNow_eq emit_def)




lemma connect_ok_state:
  assumes "connect ad s w = (True, s', w')"
  shows "connected s' \<and> \<not> mu s'"
  using connect_cases [OF assms] by auto

lemma Signer_Sign_connected:
  assumes "connected s"
  shows "Signer_Sign ad s message opts w =
     (if opts \<noteq> 0 then
        (Inl (ErrMsg ''message must not be hashed''), disconnect ((stopTimer s)\<lparr>mu := False\<rparr>), w)
      else
        (case fst (ad_Sign ad message (dev w)) of
           Inl e \<Rightarrow> Inl (ErrWrap ''Sign: '' e)
         | Inr signature \<Rightarrow> Inr signature,
         disconnect ((stopTimer s)\<lparr>mu := False\<rparr>),
         emit False (CallSign message (fst (ad_Sign ad message (dev w))))
           (snd (ad_Sign ad message (dev w))) w))"
  by (simp add: Signer_Sign_def connect_fast [OF assms] split_beta split: sum.splits)

text \<open>
  Claim C10. The facade \<^verbatim>\<open>Sign\<close> hands \<^verbatim>\<open>crypto.Hash(0)\<close> to \<^verbatim>\<open>Signer.Sign\<close>: once \<^verbatim>\<open>getSigner\<close>
  and the facade's \<^verbatim>\<open>connect\<close> have succeeded, the call always ends with the device sign call
  on the message, and the facade returns that call's signature, or its error wrapped in
  \<^verbatim>\<open>Sign: \<close>; the rejection of a hashed message is never taken.
\<close>

theorem facade_Sign_reaches_device:
  assumes "fst (getSigner ad p w) = Inr s1"
    and "fst (connect ad s1 (snd (snd (getSigner ad p w))))"
    and "w2 = snd (snd (connect ad s1 (snd (snd (getSigner ad p w)))))"
  shows "fst (Sign ad msg p w) =
           (case fst (ad_Sign ad msg (dev w2)) of
              Inl e \<Rightarrow> Inl (ErrWrap ''Sign: '' e)
            | Inr signature \<Rightarrow> Inr signature)
       \<and> calls (snd (snd (Sign ad msg p w)))
           = calls w2 @ [(False, CallSign msg (fst (ad_Sign ad msg (dev w2))))]"
proof -
  obtain p1 w1 where g: "getSigner ad p w = (Inr s1, p1, w1)"
    using assms(1) by (cases "getSigner ad p w") auto
  obtain s2 where k: "connect ad s1 w1 = (True, s2, w2)"
    using assms(2,3) g by (cases "connect ad s1 w1") auto
  have c: "connected s2" using connect_ok_state [OF k] by simp
  show ?thesis
    by (simp add: Sign_def g k Signer_Sign_connected [OF c] emit_def)
qed


theorem facade_Sign_reaches_device_witness:
  "fst (getSigner simTKey p0 w0) = Inr s0
   \<and> fst (connect simTKey s0 (snd (snd (getSigner simTKey p0 w0))))
   \<and> fst (Sign simTKey [1, 2] p0 w0) = Inr [9, 1, 2]
   \<and> calls (snd (snd (Sign simTKey [1, 2] p0 w0)))
       = calls (snd (snd (connect simTKey s0 (snd (snd (getSigner simTKey p0 w0))))))
         @ [(False, CallSign [1, 2] (Inr [9, 1, 2]))]"
  using facade_Sign_reaches_device [of simTKey p0 w0 s0
      "snd (snd (connect simTKey s0 (snd (snd (getSigner simTKey p0 w0)))))" "[1, 2]"]
  by (simp add: run_defs sim_defs)

lemma Signer_Sign_connect_failed:
  "\<not> fst (connect ad s w) \<Longrightarrow>
   Signer_Sign ad s message opts w =
     (Inl (ErrMsg ''connect failed''), fst (snd (connect ad s w)), snd (snd (connect ad s w)))"
  by (simp add: Signer_Sign_def split_beta)

lemma Signer_Sign_hashed:
  "fst (connect ad s w) \<Longrightarrow> opts \<noteq> 0 \<Longrightarrow>
   Signer_Sign ad s message opts w =
     (Inl (ErrMsg ''message must not be hashed''), disconnect (fst (snd (connect ad s w))),
      snd (snd (connect ad s w)))"
  by (simp add: Signer_Sign_def split_beta)

lemma connect_mu [simp]: "mu (fst (snd (connect ad s w))) = False"
  by (simp add: connect_def split_beta)

lemma Signer_Sign_unhashed:
  "fst (connect ad s w) \<Longrightarrow>
   Signer_Sign ad s message 0 w =
     (case fst (ad_Sign ad message (dev (snd (snd (connect ad s w))))) of
        Inl e \<Rightarrow> Inl (ErrWrap ''Sign: '' e)
      | Inr signature \<Rightarrow> Inr signature,
      disconnect (fst (snd (connect ad s w))),
      emit False (CallSign message (fst (ad_Sign ad message (dev (snd (snd (connect ad s w)))))))
        (snd (ad_Sign ad message (dev (snd (snd (connect ad s w)))))) (snd (snd (connect ad s w))))"
  by (simp add: Signer_Sign_def split_beta split: sum.splits)

text \<open>
  Claim C2, as amended. \<^verbatim>\<open>Signer.Sign\<close> with a hash function other than zero connects first.
  It makes the calls of that \<^verbatim>\<open>connect\<close> and no other, so never the device sign call; it
  returns \<^verbatim>\<open>message must not be hashed\<close> when the connect succeeds and \<^verbatim>\<open>connect failed\<close>
  when it does not. On a session that is already connected it makes no call at all.
\<close>

theorem Sign_hashed_rejected_after_connect:
  assumes "opts \<noteq> 0"
  shows "fst (Signer_Sign ad s message opts w) =
           (if fst (connect ad s w) then Inl (ErrMsg ''message must not be hashed'')
            else Inl (ErrMsg ''connect failed''))
       \<and> snd (snd (Signer_Sign ad s message opts w)) = snd (snd (connect ad s w))
       \<and> extends_with (\<lambda>e. fst e \<and> is_connect_call (snd e)) w
            (snd (snd (Signer_Sign ad s message opts w)))
       \<and> (connected s \<longrightarrow>
            fst (Signer_Sign ad s message opts w) = Inl (ErrMsg ''message must not be hashed'')
          \<and> snd (snd (Signer_Sign ad s message opts w)) = w)"
proof (cases "fst (connect ad s w)")
  case True
  show ?thesis
    using connect_calls [of w ad s] assms
    by (auto simp: Signer_Sign_hashed [OF True assms] connect_fast True)
next
  case False
  have "\<not> connected s" using False connect_fast [of s ad w] by auto
  then show ?thesis
    using connect_calls [of w ad s] by (simp add: Signer_Sign_connect_failed [OF False] False)
qed


theorem Sign_hashed_rejected_after_connect_witness:
  "(5::nat) \<noteq> 0
   \<and> fst (Signer_Sign simTKey s0 [1] 5 w0) = Inl (ErrMsg ''message must not be hashed'')
   \<and> snd (snd (Signer_Sign simTKey s0 [1] 5 w0)) = snd (snd (connect simTKey s0 w0))
   \<and> fst (Signer_Sign sim_open_fails s0 [1] 5 w0) = Inl (ErrMsg ''connect failed'')
   \<and> connected s_conn
   \<and> fst (Signer_Sign simTKey s_conn [1] 5 w_conn) = Inl (ErrMsg ''message must not be hashed'')
   \<and> snd (snd (Signer_Sign simTKey s_conn [1] 5 w_conn)) = w_conn"
  using Sign_hashed_rejected_after_connect [of 5 simTKey s0 "[1]" w0]
    Sign_hashed_rejected_after_connect [of 5 sim_open_fails s0 "[1]" w0]
    Sign_hashed_rejected_after_connect [of 5 simTKey s_conn "[1]" w_conn]
  by (simp add: run_defs sim_defs)

text \<open>
  Claim C2 as stated fails: on a session that is not yet connected, \<^verbatim>\<open>Signer.Sign\<close> with the
  hash function 5 has opened the transport and queried the token before it rejects.
\<close>

theorem Sign_hashed_counterexample:
  "\<not> (fst (Signer_Sign simTKey s0 [1] 5 w0) = Inl (ErrMsg ''message must not be hashed'')
      \<and> calls (snd (snd (Signer_Sign simTKey s0 [1] 5 w0))) = calls w0)"
  by (simp add: run_defs sim_defs)

lemma connect_failed_state:
  assumes "connected s = tk_open s" and "\<not> fst (connect ad s w)"
  shows "\<not> connected (fst (snd (connect ad s w))) \<and> \<not> tk_open (fst (snd (connect ad s w)))
       \<and> disconnectTimer (fst (snd (connect ad s w))) = None"
proof -
  obtain ok s' w' where c: "connect ad s w = (ok, s', w')" by (cases "connect ad s w")
  show ?thesis using connect_cases [OF c] assms c by auto
qed

lemma connect_ok_open:
  assumes "connected s = tk_open s" and "fst (connect ad s w)"
  shows "connected (fst (snd (connect ad s w))) \<and> tk_open (fst (snd (connect ad s w)))"
proof -
  obtain ok s' w' where c: "connect ad s w = (ok, s', w')" by (cases "connect ad s w")
  show ?thesis using connect_cases [OF c] assms c by auto
qed

lemma disconnect_arms: "connected s \<Longrightarrow> armed (disconnect s) \<noteq> [] \<and> disconnectTimer (disconnect s) \<noteq> None"
  by (simp add: disconnect_connected)

lemma Signer_Sign_after_connect:
  "fst (connect ad s w) \<Longrightarrow>
   fst (snd (Signer_Sign ad s message opts w)) = disconnect (fst (snd (connect ad s w)))"
  by (simp add: Signer_Sign_def split_beta Let_def split: sum.splits)

lemma Signer_Public_after_connect:
  "fst (connect ad s w) \<Longrightarrow>
   fst (snd (Signer_Public ad s w)) = disconnect (fst (snd (connect ad s w)))"
  by (simp add: Signer_Public_def split_beta Let_def split: sum.splits)

text \<open>
  Claim C9, as amended. A \<^verbatim>\<open>connect\<close> that fails leaves the session disconnected: not marked
  connected, the transport closed, no timer handle. After a \<^verbatim>\<open>connect\<close> that succeeds,
  \<^verbatim>\<open>Signer.Sign\<close> and \<^verbatim>\<open>Public\<close> leave the session connected, with the transport open and the
  idle timer armed, whatever they return, an error included.
\<close>

theorem failed_operation_state:
  assumes "connected s = tk_open s"
  shows "(\<not> fst (connect ad s w) \<longrightarrow>
            \<not> connected (fst (snd (connect ad s w))) \<and> \<not> tk_open (fst (snd (connect ad s w)))
          \<and> disconnectTimer (fst (snd (connect ad s w))) = None)
       \<and> (fst (connect ad s w) \<longrightarrow>
            connected (fst (snd (Signer_Sign ad s message opts w)))
          \<and> tk_open (fst (snd (Signer_Sign ad s message opts w)))
          \<and> armed (fst (snd (Signer_Sign ad s message opts w))) \<noteq> []
          \<and> connected (fst (snd (Signer_Public ad s w)))
          \<and> tk_open (fst (snd (Signer_Public ad s w)))
          \<and> armed (fst (snd (Signer_Public ad s w))) \<noteq> [])"
proof (cases "fst (connect ad s w)")
  case True
  have "connected (fst (snd (connect ad s w)))" and "tk_open (fst (snd (connect ad s w)))"
    using connect_ok_open [OF assms True] by simp_all
  then show ?thesis
    using True disconnect_arms [of "fst (snd (connect ad s w))"]
    by (simp add: Signer_Sign_after_connect Signer_Public_after_connect)
next
  case False
  then show ?thesis using connect_failed_state [OF assms False] by simp
qed

theorem failed_operation_state_witness:
  "connected s0 = tk_open s0
   \<and> \<not> fst (connect sim_open_fails s0 w0)
   \<and> \<not> connected (fst (snd (connect sim_open_fails s0 w0)))
   \<and> \<not> tk_open (fst (snd (connect sim_open_fails s0 w0)))
   \<and> fst (connect sim_sign_fails s0 w0)
   \<and> connected (fst (snd (Signer_Sign sim_sign_fails s0 [1] 0 w0)))
   \<and> armed (fst (snd (Signer_Sign sim_sign_fails s0 [1] 0 w0))) \<noteq> []"
  using failed_operation_state [of s0 sim_open_fails w0 "[1]" 0]
    failed_operation_state [of s0 sim_sign_fails w0 "[1]" 0]
  by (simp add: run_defs sim_defs)

text \<open>
  Claim C9 as stated fails: when the device sign call fails after a successful connect,
  \<^verbatim>\<open>Signer.Sign\<close> returns the error and the session stays connected with its transport open.
\<close>

theorem failed_operation_counterexample:
  "fst (Signer_Sign sim_sign_fails s0 [1] 0 w0) = Inl (ErrWrap ''Sign: '' (ErrIO ''NOK''))
   \<and> connected (fst (snd (Signer_Sign sim_sign_fails s0 [1] 0 w0)))
   \<and> tk_open (fst (snd (Signer_Sign sim_sign_fails s0 [1] 0 w0)))"
  by (simp add: run_defs sim_defs)

lemma getSigner_new_eq:
  "getSigner_new ad p w =
     (case fst (ad_DetectSerialPort ad (dev w)) of
        Inl err \<Rightarrow>
          (Inl err, p,
           emit False (CallDetectSerialPort (Inl err)) (snd (ad_DetectSerialPort ad (dev w))) w)
      | Inr port \<Rightarrow>
          (Inr (NewSigner port (ad_SerialSpeed ad) True [] [] (\<lambda>code. 0)),
           \<lparr>existingSigner = Some (NewSigner port (ad_SerialSpeed ad) True [] [] (\<lambda>code. 0)),
            replaced = replaced p @ (case existingSigner p of None \<Rightarrow> [] | Some old \<Rightarrow> [old])\<rparr>,
           emit False (CallDetectSerialPort (Inr port)) (snd (ad_DetectSerialPort ad (dev w))) w))"
  by (simp add: getSigner_new_def split_beta Let_def split: sum.splits)



lemma getSigner_no_existing:
  assumes "existingSigner p = None" and "fst (ad_DetectSerialPort ad (dev w)) = Inl e"
  shows "fst (getSigner ad p w) = Inl e"
  using assms by (simp add: getSigner_def getSigner_new_eq)

lemma getSigner_reuse:
  assumes "existingSigner p = Some s" and "connected s"
    and "app_matches (fst (ad_GetAppNameVersion ad (dev w)))"
  shows "getSigner ad p w =
     (Inr ((stopTimer s)\<lparr>mu := False\<rparr>), p\<lparr>existingSigner := Some ((stopTimer s)\<lparr>mu := False\<rparr>)\<rparr>,
      emit False (CallGetAppNameVersion (fst (ad_GetAppNameVersion ad (dev w))))
        (snd (ad_GetAppNameVersion ad (dev w))) w)"
  using assms by (simp add: getSigner_def connect_fast isWantedApp_eq)









lemma emit_sel: "calls (emit h c d w) = calls w @ [(h, c)]" "dev (emit h c d w) = d"
  by (simp_all add: emit_def)

lemma printAuthorizedKey_connected:
  assumes "connected s"
  shows "printAuthorizedKey ad s w =
     (disconnect ((stopTimer s)\<lparr>mu := False\<rparr>),
      emit False (CallGetPubkey (fst (ad_GetPubkey ad (dev w)))) (snd (ad_GetPubkey ad (dev w))) w)"
  by (simp add: printAuthorizedKey_def connect_fast [OF assms] split_beta Let_def)

text \<open>
  Claim C5, as amended. On a session that is marked connected, \<^verbatim>\<open>connect\<close> stops the pending
  timer and returns success with no call on the device. A facade call that finds such a session
  makes one app-identity query, the check of \<^verbatim>\<open>getSigner\<close>, without the mutex; when the answer
  is the wanted app, the only other calls are those of the operation: one sign call for
  \<^verbatim>\<open>Sign\<close>, get-public-key calls for \<^verbatim>\<open>GetTkeyPubKey\<close>. There is no firmware query and the
  transport is not opened again.
\<close>

theorem fast_path_rechecks_app:
  assumes "existingSigner p = Some s" and "connected s"
    and "app_matches (fst (ad_GetAppNameVersion ad (dev w)))"
  shows "connect ad s w = (True, (stopTimer s)\<lparr>mu := False\<rparr>, w)
       \<and> (\<exists>r. calls (snd (snd (Sign ad msg p w)))
              = calls w @ [(False, CallGetAppNameVersion (fst (ad_GetAppNameVersion ad (dev w)))),
                           (False, CallSign msg r)])
       \<and> (\<exists>es. calls (snd (snd (GetTkeyPubKey ad p w)))
              = calls w @ (False, CallGetAppNameVersion (fst (ad_GetAppNameVersion ad (dev w)))) # es
            \<and> list_all pubkey_call_unlocked es)"
proof -
  let ?s1 = "(stopTimer s)\<lparr>mu := False\<rparr>"
  let ?w1 = "emit False (CallGetAppNameVersion (fst (ad_GetAppNameVersion ad (dev w))))
        (snd (ad_GetAppNameVersion ad (dev w))) w"
  have g: "getSigner ad p w = (Inr ?s1, p\<lparr>existingSigner := Some ?s1\<rparr>, ?w1)"
    using assms by (rule getSigner_reuse)
  have k1: "connected ?s1" using assms(2) by simp
  let ?s2 = "(stopTimer ?s1)\<lparr>mu := False\<rparr>"
  have c: "connect ad ?s1 ?w1 = (True, ?s2, ?w1)" using k1 by (rule connect_fast)
  have k2: "connected ?s2" using assms(2) by simp
  have A: "\<exists>r. calls (snd (snd (Sign ad msg p w)))
              = calls w @ [(False, CallGetAppNameVersion (fst (ad_GetAppNameVersion ad (dev w)))),
                           (False, CallSign msg r)]"
    by (simp add: Sign_def g c Signer_Sign_connected [OF k2] emit_sel)
  have B: "\<exists>es. calls (snd (snd (GetTkeyPubKey ad p w)))
              = calls w @ (False, CallGetAppNameVersion (fst (ad_GetAppNameVersion ad (dev w)))) # es
            \<and> list_all pubkey_call_unlocked es"
  proof (cases "fst (ad_GetPubkey ad (dev ?w1))")
    case (Inl err)
    then have "calls (snd (snd (GetTkeyPubKey ad p w)))
        = calls w @ (False, CallGetAppNameVersion (fst (ad_GetAppNameVersion ad (dev w))))
            # [(False, CallGetPubkey (Inl err))]"
      by (simp add: GetTkeyPubKey_def g c split_beta Let_def emit_sel)
    then show ?thesis by force
  next
    case (Inr pub)
    then have "\<exists>r2. calls (snd (snd (GetTkeyPubKey ad p w)))
        = calls w @ (False, CallGetAppNameVersion (fst (ad_GetAppNameVersion ad (dev w))))
            # [(False, CallGetPubkey (Inr pub)), (False, CallGetPubkey r2)]"
      by (simp add: GetTkeyPubKey_def g c split_beta Let_def printAuthorizedKey_connected [OF k2] emit_sel)
    then show ?thesis by force
  qed
  show ?thesis using connect_fast [OF assms(2), of ad w] A B by simp
qed


theorem fast_path_rechecks_app_witness:
  "existingSigner p_conn = Some s_conn \<and> connected s_conn
   \<and> app_matches (fst (ad_GetAppNameVersion simTKey (dev w_conn)))
   \<and> snd (snd (connect simTKey s_conn w_conn)) = w_conn
   \<and> calls (snd (snd (Sign simTKey [2] p_conn w_conn)))
       = calls w_conn @ [(False, CallGetAppNameVersion (fst (ad_GetAppNameVersion simTKey (dev w_conn)))),
                         (False, CallSign [2] (Inr [9, 2]))]"
  using fast_path_rechecks_app [of p_conn s_conn simTKey w_conn "[2]"]
  by (simp add: run_defs sim_defs)

text \<open>
  Claim C5 as stated fails: the second facade call in a row finds the session connected and
  still queries the app identity.
\<close>

theorem fast_path_counterexample:
  "fst run1 = Inr [9, 1] \<and> existing_connected (fst (snd run1))
   \<and> (False, CallGetAppNameVersion (Inr \<lparr>Name0 = ''tk1 '', Name1 = ''sign'', Version = 1\<rparr>))
       \<in> set (new_calls (snd (snd run1)) (snd (snd run2)))"
  by (simp add: run_defs sim_defs)

text \<open>
  Claim C3, at the input where the code departs from it. After a first \<^verbatim>\<open>Sign\<close> one session is
  live. During the second, the app-identity check of \<^verbatim>\<open>getSigner\<close> fails on the connected
  session; \<^verbatim>\<open>getSigner\<close> makes a new session and points the global to it, and the old one is
  left connected with its transport open: two sessions are live.
\<close>

theorem replaced_session_stays_live:
  "fst flaky_run1 = Inr [9, 1] \<and> length (live_sessions (fst (snd flaky_run1))) = 1
   \<and> fst flaky_run2 = Inr [9, 2] \<and> length (replaced (fst (snd flaky_run2))) = 1
   \<and> length (live_sessions (fst (snd flaky_run2))) = 2"
  by (simp add: run_defs sim_defs)


lemma Signer_Public_eq:
  "Signer_Public ad s w =
     (if \<not> fst (connect ad s w) then (None, fst (snd (connect ad s w)), snd (snd (connect ad s w)))
      else
        (case fst (ad_GetPubkey ad (dev (snd (snd (connect ad s w))))) of
           Inl e \<Rightarrow> None
         | Inr pub \<Rightarrow> Some pub,
         disconnect (fst (snd (connect ad s w))),
         emit False (CallGetPubkey (fst (ad_GetPubkey ad (dev (snd (snd (connect ad s w)))))))
           (snd (ad_GetPubkey ad (dev (snd (snd (connect ad s w)))))) (snd (snd (connect ad s w)))))"
  by (simp add: Signer_Public_def split_beta Let_def split: sum.splits)

lemma timer_fire_calls: "extends_with fst w (snd (timer_fire ad t s w))"
  by (cases "t \<in> fst ` set (armed s)")
     (simp_all add: timer_fire_armed timer_fire_not_armed extends_with_emit)

lemma timer_run_calls: "extends_with fst w (snd (timer_run ad t s w))"
  by (cases "t \<in> set (started s)")
     (simp_all add: timer_run_started timer_run_not_started extends_with_emit)

text \<open>
  Claim C4, as amended. Every call made by \<^verbatim>\<open>connect\<close> (port detection, transport open,
  identity queries, secret acquisition, app load, close) and the close made by the idle timer
  (whether its function runs at once or after other operations) are made while the session's
  mutex is held. \<^verbatim>\<open>Signer.Sign\<close> and \<^verbatim>\<open>Public\<close> hold it for the
  calls of their \<^verbatim>\<open>connect\<close> only: the device sign call and the get-public-key call are made
  after it has been released. The close made by the handler of an interrupt or termination
  signal is made without taking it.
\<close>

theorem guard_coverage:
  "extends_with fst w (snd (snd (connect ad s w)))
   \<and> extends_with fst w (snd (timer_fire ad t s w))
   \<and> extends_with fst w (snd (timer_run ad t s w))
   \<and> extends_with (\<lambda>e. fst e = is_connect_call (snd e)) w (snd (snd (Signer_Sign ad s message opts w)))
   \<and> extends_with (\<lambda>e. fst e = is_connect_call (snd e)) w (snd (snd (Signer_Public ad s w)))
   \<and> (fst (connect ad s w) \<longrightarrow>
        calls (snd (snd (Signer_Sign ad s message 0 w)))
          = calls (snd (snd (connect ad s w)))
            @ [(False, CallSign message (fst (ad_Sign ad message (dev (snd (snd (connect ad s w)))))))]
      \<and> calls (snd (snd (Signer_Public ad s w)))
          = calls (snd (snd (connect ad s w)))
            @ [(False, CallGetPubkey (fst (ad_GetPubkey ad (dev (snd (snd (connect ad s w)))))))])
   \<and> (\<not> mu s \<and> sig_handlers s = sig_handlers (NewSigner port sp eu fu pe ef)
        \<and> (sg = SIGINT \<or> sg = SIGTERM) \<longrightarrow>
        calls (snd (handle_signal ad sg s w))
          = calls w @ [(False, CallClose (fst (ad_Close ad (dev w)))), (False, CallExit (exitFunc s 1))])"
proof -
  let ?P = "\<lambda>e. fst e = is_connect_call (snd e)"
  let ?w1 = "snd (snd (connect ad s w))"
  have c0: "extends_with (\<lambda>e. fst e \<and> is_connect_call (snd e)) w ?w1" by (rule connect_calls)
  have c1: "extends_with fst w ?w1" using c0 by (rule extends_with_mono) simp
  have c2: "extends_with ?P w ?w1" using c0 by (rule extends_with_mono) simp
  have e: "extends_with ?P w (emit False c d ?w1)" if "\<not> is_connect_call c" for c d
    using c2 that by (simp add: extends_with_emit_trans)
  have S: "extends_with ?P w (snd (snd (Signer_Sign ad s message opts w)))"
  proof (cases "fst (connect ad s w)")
    case False
    then show ?thesis using c2 by (simp add: Signer_Sign_connect_failed)
  next
    case True
    show ?thesis
    proof (cases "opts = 0")
      case True
      with \<open>fst (connect ad s w)\<close> show ?thesis by (simp add: Signer_Sign_unhashed e)
    next
      case False
      with \<open>fst (connect ad s w)\<close> show ?thesis using c2 by (simp add: Signer_Sign_hashed)
    qed
  qed
  have Pb: "extends_with ?P w (snd (snd (Signer_Public ad s w)))"
    using c2 by (simp add: Signer_Public_eq e)
  have D: "fst (connect ad s w) \<longrightarrow>
        calls (snd (snd (Signer_Sign ad s message 0 w)))
          = calls ?w1 @ [(False, CallSign message (fst (ad_Sign ad message (dev ?w1))))]
      \<and> calls (snd (snd (Signer_Public ad s w)))
          = calls ?w1 @ [(False, CallGetPubkey (fst (ad_GetPubkey ad (dev ?w1))))]"
    by (simp add: Signer_Sign_unhashed Signer_Public_eq emit_sel)
  have H: "\<not> mu s \<and> sig_handlers s = sig_handlers (NewSigner port sp eu fu pe ef)
        \<and> (sg = SIGINT \<or> sg = SIGTERM) \<longrightarrow>
        calls (snd (handle_signal ad sg s w))
          = calls w @ [(False, CallClose (fst (ad_Close ad (dev w)))), (False, CallExit (exitFunc s 1))]"
    by (auto simp: handle_signal_NewSigner_handlers emit_sel)
  from c1 timer_fire_calls [of w ad t s] timer_run_calls [of w ad t s] S Pb D H show ?thesis by blast
qed

theorem guard_coverage_witness:
  "fst (connect simTKey s0 w0)
   \<and> list_all fst (calls (snd (snd (connect simTKey s0 w0))))
   \<and> calls (snd (snd (Signer_Sign simTKey s0 [1] 0 w0)))
       = calls (snd (snd (connect simTKey s0 w0))) @ [(False, CallSign [1] (Inr [9, 1]))]
   \<and> list_all fst (calls (snd (timer_fire simTKey 0 (disconnect s_conn) w_conn)))
   \<and> list_all fst (calls (snd late_close))
   \<and> \<not> mu s_conn \<and> sig_handlers s_conn = sig_handlers s0
   \<and> calls (snd (handle_signal simTKey SIGINT s_conn w_conn))
       = calls w_conn @ [(False, CallClose None), (False, CallExit 0)]"
  using guard_coverage [of w0 simTKey s0 0 "[1]" 0]
    guard_coverage [of w_conn simTKey "disconnect s_conn" 0 "[1]" 0]
    guard_coverage [of "snd (snd late_connect)" simTKey "fst (snd late_connect)" 0 "[1]" 0]
    guard_coverage [of w_conn simTKey s_conn 0 "[1]" 0 "''/dev/ttyACM0''" 62500 True "[]" "[]"
      "\<lambda>code. 0" SIGINT]
  by (simp add: run_defs sim_defs)

text \<open>
  Claim C4 as stated fails: in a facade \<^verbatim>\<open>Sign\<close> on the healthy token, the device sign call is
  made while the mutex is free.
\<close>

theorem guard_coverage_counterexample:
  "(False, CallSign [1] (Inr [9, 1])) \<in> set (calls (snd (snd (Sign simTKey [1] p0 w0))))
   \<and> \<not> list_all fst (calls (snd (snd (Sign simTKey [1] p0 w0))))"
  by (simp add: run_defs sim_defs)

end
